theory Spec2Isabelle
  imports Main "HOL-Library.Sublist"
begin

section \<open>The notebook "Prefer repartition to coalesce in Spark"\<close>

text \<open>
  The repository is one Jupyter notebook (Python 2.7 kernel, so \<^verbatim>\<open>map\<close> is eager and
  returns a list). Its own code is three small functions (\<^verbatim>\<open>slow_func\<close>,
  \<^verbatim>\<open>timer\<close>, \<^verbatim>\<open>create_frame\<close>) and seven cells that call outside it: the read of
  \<^verbatim>\<open>sc.defaultParallelism\<close>, the example of \<^verbatim>\<open>timer\<close>, four experiments and
  \<^verbatim>\<open>sc.cancelAllJobs()\<close>. The Spark client library, the cluster behind it, \<^verbatim>\<open>time.sleep\<close>
  and the clock are not part of the repository: they are modelled as an arbitrary
  \<^emph>\<open>engine\<close> that answers every call either with an exception or with a value, and says
  what the clock reads afterwards. Every theorem below holds for every such engine.
  The setup cell (two imports and the assignment of \<^verbatim>\<open>path\<close>) and the three \<^verbatim>\<open>def\<close>
  cells make no call.
\<close>

subsection \<open>Values that cross the client interface\<close>

text \<open>An exception raised by a call, named by its message.\<close>

datatype exn = PyExn string

text \<open>
  The Python callables the notebook hands to the engine. Only \<^verbatim>\<open>slow_func\<close> is ever
  passed; the engine runs it on the executors, not in the driver.
\<close>

datatype pyfun = SlowFunc

datatype schema = LongType

text \<open>
  Handles are lazy descriptions of a computation, as in the client library: an RDD is
  known by how it was built, a frame by the RDD and schema it wraps and the partition
  operators applied to it, a writer by its frame and save mode.
\<close>

datatype rdd = Parallelized "int list" | Mapped rdd pyfun

datatype frame = Framed rdd schema | Coalesced frame int | Repartitioned frame int

datatype writer = Writer frame "string option"

text \<open>What the engine hands back for a call whose result is not a handle.\<close>

datatype payload = PyNone | PyInt int | PyRows "int list"

text \<open>Every call the notebook makes outside its own code, with its arguments.\<close>

datatype call =
    DefaultParallelism
  | TimeSleep int
  | Parallelize "int list"
  | RddMap rdd pyfun
  | RddTake rdd int
  | CreateDataFrame rdd schema
  | Coalesce frame int
  | Repartition frame int
  | Write frame
  | Mode writer string
  | Parquet writer string
  | CancelAllJobs

subsection \<open>The world: clock, call history, engine\<close>

text \<open>
  \<open>clock\<close> is what \<^verbatim>\<open>time.time()\<close> would return now; its type \<open>'t\<close> is left open
  (Python's floats are one instance, with their own subtraction). \<open>history\<close> lists the
  calls issued so far, oldest first. \<open>engine\<close> answers a call, given the history: the
  outcome (exception or value) and the clock reading once the call is over. The clock
  moves during calls only: the notebook's own statements take no time.
\<close>

record 't world =
  clock :: 't
  history :: "call list"
  engine :: "call list \<Rightarrow> call \<Rightarrow> (exn + payload) \<times> 't"

type_synonym ('a, 't) prog = "'t world \<Rightarrow> (exn + 'a) \<times> 't world"

definition ret :: "'a \<Rightarrow> ('a, 't) prog" where
  "ret x w = (Inr x, w)"

text \<open>Sequencing: an exception of the first part ends the whole, as a Python raise does.\<close>

definition andthen :: "('a, 't) prog \<Rightarrow> ('a \<Rightarrow> ('b, 't) prog) \<Rightarrow> ('b, 't) prog" where
  "andthen m f w = (case m w of (Inl e, w') \<Rightarrow> (Inl e, w') | (Inr x, w') \<Rightarrow> f x w')"

text \<open>One call to the outside: logged, answered by the engine, the clock moved.\<close>

definition extern :: "call \<Rightarrow> (payload, 't) prog" where
  "extern c w =
     (case engine w (history w) c of
        (r, t) \<Rightarrow> (r, w\<lparr>clock := t, history := history w @ [c]\<rparr>))"

subsection \<open>The library calls the notebook uses\<close>

definition time_time :: "('t, 't) prog" where
  "time_time w = (Inr (clock w), w)"

definition time_sleep :: "int \<Rightarrow> (payload, 't) prog" where
  "time_sleep secs = extern (TimeSleep secs)"

definition sc_defaultParallelism :: "(payload, 't) prog" where
  "sc_defaultParallelism = extern DefaultParallelism"

definition sc_parallelize :: "int list \<Rightarrow> (rdd, 't) prog" where
  "sc_parallelize xs = andthen (extern (Parallelize xs)) (\<lambda>_. ret (Parallelized xs))"

definition rdd_map :: "rdd \<Rightarrow> pyfun \<Rightarrow> (rdd, 't) prog" where
  "rdd_map r f = andthen (extern (RddMap r f)) (\<lambda>_. ret (Mapped r f))"

definition rdd_take :: "rdd \<Rightarrow> int \<Rightarrow> (payload, 't) prog" where
  "rdd_take r n = extern (RddTake r n)"

definition sqlContext_createDataFrame :: "rdd \<Rightarrow> schema \<Rightarrow> (frame, 't) prog" where
  "sqlContext_createDataFrame r s =
     andthen (extern (CreateDataFrame r s)) (\<lambda>_. ret (Framed r s))"

definition df_coalesce :: "frame \<Rightarrow> int \<Rightarrow> (frame, 't) prog" where
  "df_coalesce f n = andthen (extern (Coalesce f n)) (\<lambda>_. ret (Coalesced f n))"

definition df_repartition :: "frame \<Rightarrow> int \<Rightarrow> (frame, 't) prog" where
  "df_repartition f n = andthen (extern (Repartition f n)) (\<lambda>_. ret (Repartitioned f n))"

definition df_write :: "frame \<Rightarrow> (writer, 't) prog" where
  "df_write f = andthen (extern (Write f)) (\<lambda>_. ret (Writer f None))"

fun writer_mode :: "writer \<Rightarrow> string \<Rightarrow> (writer, 't) prog" where
  "writer_mode (Writer f m) s =
     andthen (extern (Mode (Writer f m) s)) (\<lambda>_. ret (Writer f (Some s)))"

definition writer_parquet :: "writer \<Rightarrow> string \<Rightarrow> (payload, 't) prog" where
  "writer_parquet wr p = extern (Parquet wr p)"

definition sc_cancelAllJobs :: "(payload, 't) prog" where
  "sc_cancelAllJobs = extern CancelAllJobs"

text \<open>\<^verbatim>\<open>range(n)\<close> for a Python int: empty when \<open>n \<le> 0\<close>.\<close>

definition py_range :: "int \<Rightarrow> int list" where
  "py_range n = [0..n - 1]"

text \<open>
  Python 2's \<^verbatim>\<open>map(f, xs)\<close>: \<open>f\<close> is applied to each element in order, the results
  are collected in a list, and the first exception ends the loop.
\<close>

fun py_map :: "('a \<Rightarrow> ('b, 't) prog) \<Rightarrow> 'a list \<Rightarrow> ('b list, 't) prog" where
  "py_map f [] w = (Inr [], w)"
| "py_map f (x # xs) w =
     (case f x w of
        (Inl e, w') \<Rightarrow> (Inl e, w')
      | (Inr y, w') \<Rightarrow>
          (case py_map f xs w' of
             (Inl e, w'') \<Rightarrow> (Inl e, w'')
           | (Inr ys, w'') \<Rightarrow> (Inr (y # ys), w'')))"

subsection \<open>The notebook's own code\<close>

text \<open>\<^verbatim>\<open>path = "~/tmp.parquet"\<close>, assigned in the setup cell and never again.\<close>

definition path :: string where
  "path = ''~/tmp.parquet''"

text \<open>
  \<^verbatim>\<open>
  def slow_func(ping):
      time.sleep(1)
      return(ping)
  \<close>
\<close>

definition slow_func :: "'a \<Rightarrow> ('a, 't) prog" where
  "slow_func ping = andthen (time_sleep 1) (\<lambda>_. ret ping)"

text \<open>
  \<^verbatim>\<open>
  def timer(func):
      start_time = time.time()
      func()
      return time.time() - start_time
  \<close>
\<close>

definition timer :: "('a, 't::minus) prog \<Rightarrow> ('t, 't) prog" where
  "timer func =
     andthen time_time (\<lambda>start_time.
     andthen func (\<lambda>_.
     andthen time_time (\<lambda>now. ret (now - start_time))))"

text \<open>
  \<^verbatim>\<open>
  def create_frame(rdd):
      return sqlContext.createDataFrame(rdd, schema=LongType())
  \<close>
\<close>

definition create_frame :: "rdd \<Rightarrow> (frame, 't) prog" where
  "create_frame r = sqlContext_createDataFrame r LongType"

subsection \<open>The executable cells\<close>

text \<open>\<^verbatim>\<open>timer(lambda: slow_func(10))\<close>, the example of use.\<close>

definition example_usage :: "('t::minus, 't) prog" where
  "example_usage = timer (slow_func (10::int))"

text \<open>
  Simple RDD:
  \<^verbatim>\<open>map(lambda x: timer(lambda: sc.parallelize(range(x)).map(slow_func).take(x)), range(10))\<close>
\<close>

definition simple_rdd_job :: "int \<Rightarrow> (payload, 't) prog" where
  "simple_rdd_job x =
     andthen (sc_parallelize (py_range x)) (\<lambda>r.
     andthen (rdd_map r SlowFunc) (\<lambda>m.
     rdd_take m x))"

definition simple_rdd :: "('t::minus list, 't) prog" where
  "simple_rdd = py_map (\<lambda>x. timer (simple_rdd_job x)) (py_range 10)"

text \<open>
  Spark DataFrame:
  \<^verbatim>\<open>map(lambda x: timer(lambda: create_frame(sc.parallelize(range(x)))
                  .coalesce(1).write.mode("overwrite").parquet(path)), range(10))\<close>
\<close>

definition spark_dataframe_job :: "int \<Rightarrow> (payload, 't) prog" where
  "spark_dataframe_job x =
     andthen (sc_parallelize (py_range x)) (\<lambda>r.
     andthen (create_frame r) (\<lambda>f.
     andthen (df_coalesce f 1) (\<lambda>g.
     andthen (df_write g) (\<lambda>wr.
     andthen (writer_mode wr ''overwrite'') (\<lambda>wr'.
     writer_parquet wr' path)))))"

definition spark_dataframe :: "('t::minus list, 't) prog" where
  "spark_dataframe = py_map (\<lambda>x. timer (spark_dataframe_job x)) (py_range 10)"

text \<open>
  Offending example:
  \<^verbatim>\<open>map(lambda x: timer(lambda: create_frame(sc.parallelize(range(x)).map(slow_func))
                  .coalesce(1).write.mode("overwrite").parquet(path)), range(10))\<close>
\<close>

definition offending_example_job :: "int \<Rightarrow> (payload, 't) prog" where
  "offending_example_job x =
     andthen (sc_parallelize (py_range x)) (\<lambda>r.
     andthen (rdd_map r SlowFunc) (\<lambda>m.
     andthen (create_frame m) (\<lambda>f.
     andthen (df_coalesce f 1) (\<lambda>g.
     andthen (df_write g) (\<lambda>wr.
     andthen (writer_mode wr ''overwrite'') (\<lambda>wr'.
     writer_parquet wr' path))))))"

definition offending_example :: "('t::minus list, 't) prog" where
  "offending_example = py_map (\<lambda>x. timer (offending_example_job x)) (py_range 10)"

text \<open>
  Repartition fixes the issue:
  \<^verbatim>\<open>map(lambda x: timer(lambda: create_frame(sc.parallelize(range(x)).map(slow_func))
                  .repartition(1).write.mode("overwrite").parquet(path)), range(10))\<close>
\<close>

definition repartition_fixes_job :: "int \<Rightarrow> (payload, 't) prog" where
  "repartition_fixes_job x =
     andthen (sc_parallelize (py_range x)) (\<lambda>r.
     andthen (rdd_map r SlowFunc) (\<lambda>m.
     andthen (create_frame m) (\<lambda>f.
     andthen (df_repartition f 1) (\<lambda>g.
     andthen (df_write g) (\<lambda>wr.
     andthen (writer_mode wr ''overwrite'') (\<lambda>wr'.
     writer_parquet wr' path))))))"

definition repartition_fixes :: "('t::minus list, 't) prog" where
  "repartition_fixes = py_map (\<lambda>x. timer (repartition_fixes_job x)) (py_range 10)"

text \<open>The experiment cells, in the order of the notebook.\<close>

definition experiments :: "('t::minus list, 't) prog list" where
  "experiments = [simple_rdd, spark_dataframe, offending_example, repartition_fixes]"

text \<open>
  What a cell displays: the value of its last expression. The cells that only define a
  function or a constant display nothing and call nothing.
\<close>

datatype 't out = OutValue payload | OutTime 't | OutTimes "'t list"

text \<open>
  The cells from \<^verbatim>\<open>sc.defaultParallelism\<close> to the last experiment, run top to bottom;
  an exception stops the run.
\<close>

definition before_cleanup :: "('t::minus out list, 't) prog" where
  "before_cleanup =
     andthen sc_defaultParallelism (\<lambda>par.
     andthen example_usage (\<lambda>t.
     andthen (py_map (\<lambda>cell. cell) experiments) (\<lambda>tss.
     ret (OutValue par # OutTime t # map OutTimes tss))))"

text \<open>The whole notebook: the last cell is \<^verbatim>\<open>sc.cancelAllJobs()\<close>.\<close>

definition notebook :: "('t::minus out list, 't) prog" where
  "notebook =
     andthen before_cleanup (\<lambda>outs.
     andthen sc_cancelAllJobs (\<lambda>_. ret outs))"

subsection \<open>Observing a run\<close>

text \<open>The calls issued between two worlds of one run.\<close>

definition issued :: "'t world \<Rightarrow> 't world \<Rightarrow> call list" where
  "issued w w' = drop (length (history w)) (history w')"

text \<open>
  A straight-line script: the calls of a list, one after the other, given up at the first
  one that raises. A program that behaves as a script has no branch, retry or handler.
\<close>

fun script :: "call list \<Rightarrow> (unit, 't) prog" where
  "script [] w = (Inr (), w)"
| "script (c # cs) w =
     (case extern c w of (Inl e, w') \<Rightarrow> (Inl e, w') | (Inr v, w') \<Rightarrow> script cs w')"

text \<open>
  \<open>conforms m Q cs\<close>: in every world, \<open>m\<close> leaves the world the script \<open>cs\<close> leaves,
  raises exactly the exception the script raises, and otherwise returns a value
  satisfying \<open>Q\<close>.
\<close>

definition conforms :: "('a, 't) prog \<Rightarrow> ('a \<Rightarrow> bool) \<Rightarrow> call list \<Rightarrow> bool" where
  "conforms m Q cs =
     (\<forall>w. snd (m w) = snd (script cs w) \<and>
          (case fst (m w) of
             Inl e \<Rightarrow> fst (script cs w) = Inl e
           | Inr v \<Rightarrow> fst (script cs w) = Inr () \<and> Q v))"

text \<open>The calls of one timed job of each experiment, for input size \<open>x\<close>.\<close>

definition simple_rdd_calls :: "int \<Rightarrow> call list" where
  "simple_rdd_calls x =
     [Parallelize (py_range x),
      RddMap (Parallelized (py_range x)) SlowFunc,
      RddTake (Mapped (Parallelized (py_range x)) SlowFunc) x]"

definition spark_dataframe_calls :: "int \<Rightarrow> call list" where
  "spark_dataframe_calls x =
     (let f = Framed (Parallelized (py_range x)) LongType in
      [Parallelize (py_range x),
       CreateDataFrame (Parallelized (py_range x)) LongType,
       Coalesce f 1,
       Write (Coalesced f 1),
       Mode (Writer (Coalesced f 1) None) ''overwrite'',
       Parquet (Writer (Coalesced f 1) (Some ''overwrite'')) ''~/tmp.parquet''])"

definition offending_example_calls :: "int \<Rightarrow> call list" where
  "offending_example_calls x =
     (let m = Mapped (Parallelized (py_range x)) SlowFunc; f = Framed m LongType in
      [Parallelize (py_range x),
       RddMap (Parallelized (py_range x)) SlowFunc,
       CreateDataFrame m LongType,
       Coalesce f 1,
       Write (Coalesced f 1),
       Mode (Writer (Coalesced f 1) None) ''overwrite'',
       Parquet (Writer (Coalesced f 1) (Some ''overwrite'')) ''~/tmp.parquet''])"

definition repartition_fixes_calls :: "int \<Rightarrow> call list" where
  "repartition_fixes_calls x =
     (let m = Mapped (Parallelized (py_range x)) SlowFunc; f = Framed m LongType in
      [Parallelize (py_range x),
       RddMap (Parallelized (py_range x)) SlowFunc,
       CreateDataFrame m LongType,
       Repartition f 1,
       Write (Repartitioned f 1),
       Mode (Writer (Repartitioned f 1) None) ''overwrite'',
       Parquet (Writer (Repartitioned f 1) (Some ''overwrite'')) ''~/tmp.parquet''])"

text \<open>The calls of a cell that maps a timed job over \<^verbatim>\<open>range(10)\<close>.\<close>

definition ten_sizes :: "(int \<Rightarrow> call list) \<Rightarrow> call list" where
  "ten_sizes calls = concat (map calls (py_range 10))"

text \<open>Each experiment cell with the calls of its job.\<close>

definition experiment_table :: "(('t::minus list, 't) prog \<times> (int \<Rightarrow> call list)) list" where
  "experiment_table =
     [(simple_rdd, simple_rdd_calls),
      (spark_dataframe, spark_dataframe_calls),
      (offending_example, offending_example_calls),
      (repartition_fixes, repartition_fixes_calls)]"

definition before_cleanup_calls :: "call list" where
  "before_cleanup_calls =
     [DefaultParallelism, TimeSleep 1] @
     ten_sizes simple_rdd_calls @ ten_sizes spark_dataframe_calls @
     ten_sizes offending_example_calls @ ten_sizes repartition_fixes_calls"

definition notebook_calls :: "call list" where
  "notebook_calls = before_cleanup_calls @ [CancelAllJobs]"

text \<open>A call that writes to the file system, and one that cancels jobs.\<close>

fun persists :: "call \<Rightarrow> bool" where
  "persists (Parquet wr p) = True"
| "persists _ = False"

text \<open>A parquet write to \<open>p\<close> by a writer in overwrite mode.\<close>

fun overwrites :: "string \<Rightarrow> call \<Rightarrow> bool" where
  "overwrites p (Parquet (Writer f m) q) = (q = p \<and> m = Some ''overwrite'')"
| "overwrites p _ = False"

text \<open>The paths a list of calls writes to, in order.\<close>

fun written_paths :: "call list \<Rightarrow> string list" where
  "written_paths [] = []"
| "written_paths (Parquet wr p # cs) = p # written_paths cs"
| "written_paths (c # cs) = written_paths cs"

text \<open>
  The calls that make the engine run a distributed job and block until it is over: the
  two actions, \<^verbatim>\<open>take\<close> and the parquet write. Every other call only builds a handle.
\<close>

fun runs_job :: "call \<Rightarrow> bool" where
  "runs_job (RddTake r n) = True"
| "runs_job (Parquet wr p) = True"
| "runs_job _ = False"

fun reduces :: "call \<Rightarrow> bool" where
  "reduces (Coalesce f n) = True"
| "reduces (Repartition f n) = True"
| "reduces _ = False"

text \<open>The timed job of each experiment with its calls.\<close>

definition job_table :: "((int \<Rightarrow> (payload, 't) prog) \<times> (int \<Rightarrow> call list)) list" where
  "job_table =
     [(simple_rdd_job, simple_rdd_calls),
      (spark_dataframe_job, spark_dataframe_calls),
      (offending_example_job, offending_example_calls),
      (repartition_fixes_job, repartition_fixes_calls)]"

text \<open>
  The elapsed times of jobs run one after the other from the world \<open>w\<close>, each job given
  by its calls: for every job, what the clock reads after its last call minus what it
  read before its first.
\<close>

fun elapsed_times :: "call list list \<Rightarrow> 't::minus world \<Rightarrow> 't list" where
  "elapsed_times [] w = []"
| "elapsed_times (cs # css) w =
     (clock (snd (script cs w)) - clock w) # elapsed_times css (snd (script cs w))"

subsection \<open>Two concrete engines\<close>

text \<open>An engine that never raises: every call returns nothing and takes one tick.\<close>

definition calm_engine :: "call list \<Rightarrow> call \<Rightarrow> (exn + payload) \<times> int" where
  "calm_engine h c = (Inr PyNone, int (length h) + 1)"

definition calm_world :: "int world" where
  "calm_world = \<lparr>clock = 0, history = [], engine = calm_engine\<rparr>"

text \<open>An engine whose fifth call is cancelled.\<close>

definition flaky_engine :: "call list \<Rightarrow> call \<Rightarrow> (exn + payload) \<times> int" where
  "flaky_engine h c =
     (if length h = 4 then (Inl (PyExn ''cancelled''), 5)
      else (Inr PyNone, int (length h) + 1))"

definition flaky_world :: "int world" where
  "flaky_world = \<lparr>clock = 0, history = [], engine = flaky_engine\<rparr>"

text \<open>An engine that is down: every call raises.\<close>

definition stopped_engine :: "call list \<Rightarrow> call \<Rightarrow> (exn + payload) \<times> int" where
  "stopped_engine h c = (Inl (PyExn ''stopped''), int (length h) + 1)"

definition stopped_world :: "int world" where
  "stopped_world = \<lparr>clock = 0, history = [], engine = stopped_engine\<rparr>"

subsection \<open>What the engine answered\<close>

text \<open>
  The engine's answer to call number \<open>i\<close> (from 0) of the calls \<open>cs\<close> issued from the
  world \<open>w\<close>; meant for \<open>i < length cs\<close>.
\<close>

definition answer :: "'t world \<Rightarrow> call list \<Rightarrow> nat \<Rightarrow> exn + payload" where
  "answer w cs i = fst (engine w (history w @ take i cs) (cs ! i))"

subsection \<open>The experiments described by what varies\<close>

text \<open>
  The description of the four experiments by their differences, as one job with
  switches: the data is a parallelized \<^verbatim>\<open>range(x)\<close>; \<^verbatim>\<open>slow_func\<close> is mapped over it
  or not; then either the plain sequence is materialised with \<^verbatim>\<open>take(x)\<close>, or it is
  wrapped by \<^verbatim>\<open>create_frame\<close>, reduced to one partition by \<^verbatim>\<open>coalesce\<close> or
  \<^verbatim>\<open>repartition\<close>, and written as parquet to \<open>path\<close> in overwrite mode.
\<close>

datatype reducer = ByCoalesce | ByRepartition

datatype variant = PlainTake | FrameWrite bool reducer

definition spec_delay :: "bool \<Rightarrow> rdd \<Rightarrow> (rdd, 't) prog" where
  "spec_delay delayed r = (if delayed then rdd_map r SlowFunc else ret r)"

fun spec_reduce :: "reducer \<Rightarrow> frame \<Rightarrow> (frame, 't) prog" where
  "spec_reduce ByCoalesce f = df_coalesce f 1"
| "spec_reduce ByRepartition f = df_repartition f 1"

fun spec_job :: "variant \<Rightarrow> int \<Rightarrow> (payload, 't) prog" where
  "spec_job PlainTake x =
     andthen (sc_parallelize (py_range x)) (\<lambda>r.
     andthen (spec_delay True r) (\<lambda>m.
     rdd_take m x))"
| "spec_job (FrameWrite delayed red) x =
     andthen (sc_parallelize (py_range x)) (\<lambda>r.
     andthen (spec_delay delayed r) (\<lambda>m.
     andthen (create_frame m) (\<lambda>f.
     andthen (spec_reduce red f) (\<lambda>g.
     andthen (df_write g) (\<lambda>wr.
     andthen (writer_mode wr ''overwrite'') (\<lambda>wr'.
     writer_parquet wr' path))))))"

definition spec_experiment :: "variant \<Rightarrow> ('t::minus list, 't) prog" where
  "spec_experiment v = py_map (\<lambda>x. timer (spec_job v x)) (py_range 10)"

section \<open>Supporting lemmas\<close>

subsection \<open>Programs that behave as scripts\<close>

lemma script_append:
  "script (cs @ ds) w =
     (case script cs w of (Inl e, w') \<Rightarrow> (Inl e, w') | (Inr u, w') \<Rightarrow> script ds w')"
  by (induction cs arbitrary: w) (auto split: prod.splits sum.splits)

lemma conforms_Inl:
  "conforms m Q cs \<Longrightarrow> m w = (Inl e, w') \<Longrightarrow> script cs w = (Inl e, w')"
  by (auto simp: conforms_def prod_eq_iff dest!: spec [of _ w])

lemma conforms_Inr:
  "conforms m Q cs \<Longrightarrow> m w = (Inr v, w') \<Longrightarrow> script cs w = (Inr (), w') \<and> Q v"
  by (auto simp: conforms_def prod_eq_iff dest!: spec [of _ w])

lemma conforms_ret: "Q x \<Longrightarrow> conforms (ret x) Q []"
  by (simp add: conforms_def ret_def)

lemma conforms_extern: "conforms (extern c) (\<lambda>_. True) [c]"
  by (auto simp: conforms_def split: prod.splits sum.splits)

lemma conforms_weaken: "conforms m Q cs \<Longrightarrow> (\<And>v. Q v \<Longrightarrow> R v) \<Longrightarrow> conforms m R cs"
  by (auto simp: conforms_def split: sum.splits dest!: spec)

lemma conforms_andthen:
  assumes m: "conforms m Q cs" and f: "\<And>x. Q x \<Longrightarrow> conforms (f x) R ds"
  shows "conforms (andthen m f) R (cs @ ds)"
  unfolding conforms_def
proof (intro allI)
  fix w
  obtain r w1 where mw: "m w = (r, w1)" by (cases "m w")
  show "snd (andthen m f w) = snd (script (cs @ ds) w) \<and>
        (case fst (andthen m f w) of
           Inl e \<Rightarrow> fst (script (cs @ ds) w) = Inl e
         | Inr v \<Rightarrow> fst (script (cs @ ds) w) = Inr () \<and> R v)"
  proof (cases r)
    case (Inl e)
    with mw m have "script cs w = (Inl e, w1)" by (auto dest: conforms_Inl)
    with mw Inl show ?thesis by (simp add: andthen_def script_append)
  next
    case (Inr x)
    with mw m have s: "script cs w = (Inr (), w1)" and q: "Q x"
      by (auto dest: conforms_Inr)
    from f [OF q] have "snd (f x w1) = snd (script ds w1) \<and>
        (case fst (f x w1) of
           Inl e \<Rightarrow> fst (script ds w1) = Inl e
         | Inr v \<Rightarrow> fst (script ds w1) = Inr () \<and> R v)"
      by (simp add: conforms_def)
    with mw Inr s show ?thesis
      by (simp add: andthen_def script_append split: sum.splits)
  qed
qed

lemma timer_cases:
  "timer func w =
     (case func w of (Inl e, w') \<Rightarrow> (Inl e, w') | (Inr r, w') \<Rightarrow> (Inr (clock w' - clock w), w'))"
  by (simp add: timer_def andthen_def time_time_def ret_def split: prod.splits sum.splits)

lemma conforms_timer:
  assumes "conforms func Q cs"
  shows "conforms (timer func) (\<lambda>_. True) cs"
  unfolding conforms_def
proof (intro allI)
  fix w
  obtain r w1 where fw: "func w = (r, w1)" by (cases "func w")
  note t = timer_cases [of func w]
  show "snd (timer func w) = snd (script cs w) \<and>
        (case fst (timer func w) of
           Inl e \<Rightarrow> fst (script cs w) = Inl e
         | Inr v \<Rightarrow> fst (script cs w) = Inr () \<and> True)"
  proof (cases r)
    case (Inl e)
    with fw assms have "script cs w = (Inl e, w1)" by (auto dest: conforms_Inl)
    with fw Inl t show ?thesis by simp
  next
    case (Inr x)
    with fw assms have "script cs w = (Inr (), w1)" by (auto dest: conforms_Inr)
    with fw Inr t show ?thesis by simp
  qed
qed

lemma conforms_py_map:
  assumes "\<And>x. x \<in> set xs \<Longrightarrow> conforms (f x) Q (g x)"
  shows "conforms (py_map f xs) (\<lambda>ys. length ys = length xs \<and> list_all Q ys) (concat (map g xs))"
  using assms
proof (induction xs)
  case Nil
  show ?case by (simp add: conforms_def)
next
  case (Cons x xs)
  have hd: "conforms (f x) Q (g x)" using Cons.prems by simp
  have tl: "conforms (py_map f xs) (\<lambda>ys. length ys = length xs \<and> list_all Q ys)
              (concat (map g xs))"
    using Cons.IH Cons.prems by simp
  have step: "py_map f (x # xs) =
      andthen (f x) (\<lambda>y. andthen (py_map f xs) (\<lambda>ys. ret (y # ys)))"
    by (rule ext) (simp add: andthen_def ret_def split: prod.splits sum.splits)
  have "conforms (andthen (f x) (\<lambda>y. andthen (py_map f xs) (\<lambda>ys. ret (y # ys))))
          (\<lambda>ys. length ys = length (x # xs) \<and> list_all Q ys)
          (g x @ (concat (map g xs) @ []))"
  proof (rule conforms_andthen [OF hd])
    fix y assume y: "Q y"
    show "conforms (andthen (py_map f xs) (\<lambda>ys. ret (y # ys)))
            (\<lambda>ys. length ys = length (x # xs) \<and> list_all Q ys) (concat (map g xs) @ [])"
      by (rule conforms_andthen [OF tl]) (simp add: conforms_ret y)
  qed
  with step show ?case by simp
qed

lemma conforms_step:
  assumes "conforms m (\<lambda>r. r = h) [c]" and "conforms (f h) R ds"
  shows "conforms (andthen m f) R (c # ds)"
  using conforms_andthen [of m "\<lambda>r. r = h" "[c]" f R ds] assms by simp

lemma conforms_handle: "conforms (andthen (extern c) (\<lambda>_. ret h)) (\<lambda>r. r = h) [c]"
  using conforms_andthen [OF conforms_extern, of "\<lambda>_. ret h" "\<lambda>r. r = h" "[]" c]
  by (simp add: conforms_ret)

lemma conforms_cells:
  assumes "list_all2 (\<lambda>m cs. conforms m Q cs) ms css"
  shows "conforms (py_map (\<lambda>cell. cell) ms) (\<lambda>ys. length ys = length ms) (concat css)"
  using assms
proof (induction rule: list_all2_induct)
  case Nil
  show ?case by (simp add: conforms_def)
next
  case (Cons m ms cs css)
  have step: "py_map (\<lambda>cell. cell) (m # ms) =
      andthen m (\<lambda>y. andthen (py_map (\<lambda>cell. cell) ms) (\<lambda>ys. ret (y # ys)))"
    by (rule ext) (simp add: andthen_def ret_def split: prod.splits sum.splits)
  have "conforms (andthen m (\<lambda>y. andthen (py_map (\<lambda>cell. cell) ms) (\<lambda>ys. ret (y # ys))))
          (\<lambda>ys. length ys = length (m # ms)) (cs @ (concat css @ []))"
  proof (rule conforms_andthen [OF Cons.hyps(1)])
    fix y
    show "conforms (andthen (py_map (\<lambda>cell. cell) ms) (\<lambda>ys. ret (y # ys)))
            (\<lambda>ys. length ys = length (m # ms)) (concat css @ [])"
      by (rule conforms_andthen [OF Cons.IH]) (simp add: conforms_ret)
  qed
  with step show ?case by simp
qed

subsection \<open>What a script leaves behind\<close>

lemma extern_engine: "engine (snd (extern c w)) = engine w"
  by (simp add: extern_def split: prod.splits)

lemma extern_history: "history (snd (extern c w)) = history w @ [c]"
  by (simp add: extern_def split: prod.splits)

lemma script_history: "\<exists>p. prefix p cs \<and> history (snd (script cs w)) = history w @ p"
proof (induction cs arbitrary: w)
  case Nil
  show ?case by simp
next
  case (Cons c cs)
  obtain r w1 where e: "extern c w = (r, w1)" by (cases "extern c w")
  have h1: "history w1 = history w @ [c]" using extern_history [of c w] e by simp
  show ?case
  proof (cases r)
    case (Inl x)
    with e h1 have "prefix [c] (c # cs) \<and> history (snd (script (c # cs) w)) = history w @ [c]"
      by simp
    then show ?thesis by blast
  next
    case (Inr v)
    from Cons.IH [of w1] obtain p where p: "prefix p cs" "history (snd (script cs w1)) = history w1 @ p"
      by blast
    with e h1 Inr have "prefix (c # p) (c # cs) \<and>
        history (snd (script (c # cs) w)) = history w @ (c # p)"
      by simp
    then show ?thesis by blast
  qed
qed

lemma script_history_Inr:
  "fst (script cs w) = Inr u \<Longrightarrow> history (snd (script cs w)) = history w @ cs"
proof (induction cs arbitrary: w)
  case Nil
  show ?case by simp
next
  case (Cons c cs)
  obtain r w1 where e: "extern c w = (r, w1)" by (cases "extern c w")
  have h1: "history w1 = history w @ [c]" using extern_history [of c w] e by simp
  show ?case
  proof (cases r)
    case (Inl x)
    with e Cons.prems show ?thesis by simp
  next
    case (Inr v)
    with e Cons.prems have "fst (script cs w1) = Inr u" by simp
    from Cons.IH [OF this] e h1 Inr show ?thesis by simp
  qed
qed

lemma issued_script: "prefix (issued w (snd (script cs w))) cs"
  using script_history [of cs w] by (auto simp: issued_def)

lemma issued_script_Inr: "fst (script cs w) = Inr u \<Longrightarrow> issued w (snd (script cs w)) = cs"
  by (simp add: script_history_Inr issued_def)

text \<open>Against the engine that never raises, a script runs to its end.\<close>

lemma script_calm:
  "engine w = calm_engine \<Longrightarrow> fst (script cs w) = Inr ()"
proof (induction cs arbitrary: w)
  case Nil
  show ?case by simp
next
  case (Cons c cs)
  have e: "extern c w = (Inr PyNone, snd (extern c w))"
    using Cons.prems by (simp add: extern_def calm_engine_def)
  have "engine (snd (extern c w)) = calm_engine"
    using Cons.prems by (simp add: extern_engine)
  from Cons.IH [OF this] e show ?case
    by (metis (no_types, lifting) script.simps(2) old.prod.case old.sum.simps(6))
qed

subsection \<open>The library calls and the jobs as scripts\<close>

lemma conforms_sc_parallelize:
  "conforms (sc_parallelize xs) (\<lambda>r. r = Parallelized xs) [Parallelize xs]"
  unfolding sc_parallelize_def by (rule conforms_handle)

lemma conforms_rdd_map:
  "conforms (rdd_map r f) (\<lambda>m. m = Mapped r f) [RddMap r f]"
  unfolding rdd_map_def by (rule conforms_handle)

lemma conforms_rdd_take:
  "conforms (rdd_take r n) (\<lambda>_. True) [RddTake r n]"
  unfolding rdd_take_def by (rule conforms_extern)

lemma conforms_create_frame:
  "conforms (create_frame r) (\<lambda>f. f = Framed r LongType) [CreateDataFrame r LongType]"
  unfolding create_frame_def sqlContext_createDataFrame_def by (rule conforms_handle)

lemma conforms_df_coalesce:
  "conforms (df_coalesce f n) (\<lambda>g. g = Coalesced f n) [Coalesce f n]"
  unfolding df_coalesce_def by (rule conforms_handle)

lemma conforms_df_repartition:
  "conforms (df_repartition f n) (\<lambda>g. g = Repartitioned f n) [Repartition f n]"
  unfolding df_repartition_def by (rule conforms_handle)

lemma conforms_df_write:
  "conforms (df_write f) (\<lambda>wr. wr = Writer f None) [Write f]"
  unfolding df_write_def by (rule conforms_handle)

lemma conforms_writer_mode:
  "conforms (writer_mode (Writer f m) s) (\<lambda>wr. wr = Writer f (Some s)) [Mode (Writer f m) s]"
  unfolding writer_mode.simps by (rule conforms_handle)

lemma conforms_writer_parquet:
  "conforms (writer_parquet wr p) (\<lambda>_. True) [Parquet wr p]"
  unfolding writer_parquet_def by (rule conforms_extern)

lemma conforms_slow_func:
  "conforms (slow_func ping) (\<lambda>r. r = ping) [TimeSleep 1]"
  unfolding slow_func_def time_sleep_def by (rule conforms_handle)

lemma conforms_simple_rdd_job:
  "conforms (simple_rdd_job x) (\<lambda>_. True) (simple_rdd_calls x)"
  unfolding simple_rdd_job_def simple_rdd_calls_def
  by (rule conforms_step, rule conforms_sc_parallelize,
      rule conforms_step, rule conforms_rdd_map,
      rule conforms_rdd_take)

lemma conforms_spark_dataframe_job:
  "conforms (spark_dataframe_job x) (\<lambda>_. True) (spark_dataframe_calls x)"
  unfolding spark_dataframe_job_def spark_dataframe_calls_def Let_def path_def
  by (rule conforms_step, rule conforms_sc_parallelize,
      rule conforms_step, rule conforms_create_frame,
      rule conforms_step, rule conforms_df_coalesce,
      rule conforms_step, rule conforms_df_write,
      rule conforms_step, rule conforms_writer_mode,
      rule conforms_writer_parquet)

lemma conforms_offending_example_job:
  "conforms (offending_example_job x) (\<lambda>_. True) (offending_example_calls x)"
  unfolding offending_example_job_def offending_example_calls_def Let_def path_def
  by (rule conforms_step, rule conforms_sc_parallelize,
      rule conforms_step, rule conforms_rdd_map,
      rule conforms_step, rule conforms_create_frame,
      rule conforms_step, rule conforms_df_coalesce,
      rule conforms_step, rule conforms_df_write,
      rule conforms_step, rule conforms_writer_mode,
      rule conforms_writer_parquet)

lemma conforms_repartition_fixes_job:
  "conforms (repartition_fixes_job x) (\<lambda>_. True) (repartition_fixes_calls x)"
  unfolding repartition_fixes_job_def repartition_fixes_calls_def Let_def path_def
  by (rule conforms_step, rule conforms_sc_parallelize,
      rule conforms_step, rule conforms_rdd_map,
      rule conforms_step, rule conforms_create_frame,
      rule conforms_step, rule conforms_df_repartition,
      rule conforms_step, rule conforms_df_write,
      rule conforms_step, rule conforms_writer_mode,
      rule conforms_writer_parquet)

subsection \<open>The cells as scripts\<close>

lemma py_range_10: "py_range 10 = [0, 1, 2, 3, 4, 5, 6, 7, 8, 9]"
  unfolding py_range_def by code_simp

lemma py_range_0: "py_range 0 = []"
  by (simp add: py_range_def)

lemma py_range_1: "py_range 1 = [0]"
  unfolding py_range_def by code_simp

lemma conforms_timed_jobs:
  assumes "\<And>x. conforms (job x) (\<lambda>_. True) (calls x)"
  shows "conforms (py_map (\<lambda>x. timer (job x)) (py_range 10))
           (\<lambda>ts. length ts = 10) (ten_sizes calls)"
proof -
  have "conforms (py_map (\<lambda>x. timer (job x)) (py_range 10))
          (\<lambda>ts. length ts = length (py_range 10) \<and> list_all (\<lambda>_. True) ts)
          (concat (map calls (py_range 10)))"
    by (rule conforms_py_map) (rule conforms_timer [OF assms])
  then show ?thesis
    unfolding ten_sizes_def by (rule conforms_weaken) (simp add: py_range_10)
qed

lemma conforms_simple_rdd:
  "conforms simple_rdd (\<lambda>ts. length ts = 10) (ten_sizes simple_rdd_calls)"
  unfolding simple_rdd_def by (rule conforms_timed_jobs) (rule conforms_simple_rdd_job)

lemma conforms_spark_dataframe:
  "conforms spark_dataframe (\<lambda>ts. length ts = 10) (ten_sizes spark_dataframe_calls)"
  unfolding spark_dataframe_def by (rule conforms_timed_jobs) (rule conforms_spark_dataframe_job)

lemma conforms_offending_example:
  "conforms offending_example (\<lambda>ts. length ts = 10) (ten_sizes offending_example_calls)"
  unfolding offending_example_def
  by (rule conforms_timed_jobs) (rule conforms_offending_example_job)

lemma conforms_repartition_fixes:
  "conforms repartition_fixes (\<lambda>ts. length ts = 10) (ten_sizes repartition_fixes_calls)"
  unfolding repartition_fixes_def
  by (rule conforms_timed_jobs) (rule conforms_repartition_fixes_job)

lemma conforms_table:
  "(cell, calls) \<in> set experiment_table \<Longrightarrow>
     conforms cell (\<lambda>ts. length ts = 10) (ten_sizes calls)"
  unfolding experiment_table_def
  using conforms_simple_rdd conforms_spark_dataframe conforms_offending_example
    conforms_repartition_fixes
  by auto

lemma conforms_example_usage: "conforms example_usage (\<lambda>_. True) [TimeSleep 1]"
  unfolding example_usage_def by (rule conforms_timer) (rule conforms_slow_func)

lemma conforms_experiments:
  "conforms (py_map (\<lambda>cell. cell) experiments) (\<lambda>tss. length tss = 4)
     (ten_sizes simple_rdd_calls @ ten_sizes spark_dataframe_calls @
      ten_sizes offending_example_calls @ ten_sizes repartition_fixes_calls)"
proof -
  have "list_all2 (\<lambda>m cs. conforms m (\<lambda>ts. length ts = 10) cs) experiments
          [ten_sizes simple_rdd_calls, ten_sizes spark_dataframe_calls,
           ten_sizes offending_example_calls, ten_sizes repartition_fixes_calls]"
    unfolding experiments_def
    by (simp add: conforms_simple_rdd conforms_spark_dataframe conforms_offending_example
          conforms_repartition_fixes)
  from conforms_cells [OF this]
  have "conforms (py_map (\<lambda>cell. cell) experiments)
          (\<lambda>tss. length tss = Suc (Suc (Suc (Suc 0))))
          (ten_sizes simple_rdd_calls @ ten_sizes spark_dataframe_calls @
           ten_sizes offending_example_calls @ ten_sizes repartition_fixes_calls)"
    by (simp add: experiments_def)
  then show ?thesis by (rule conforms_weaken) simp
qed

lemma conforms_before_cleanup:
  "conforms before_cleanup (\<lambda>_. True) before_cleanup_calls"
proof -
  have "conforms before_cleanup (\<lambda>_. True)
          ([DefaultParallelism] @ [TimeSleep 1] @
           (ten_sizes simple_rdd_calls @ ten_sizes spark_dataframe_calls @
            ten_sizes offending_example_calls @ ten_sizes repartition_fixes_calls) @ [])"
    unfolding before_cleanup_def sc_defaultParallelism_def
    by (rule conforms_andthen, rule conforms_extern,
        rule conforms_andthen, rule conforms_example_usage,
        rule conforms_andthen, rule conforms_experiments,
        rule conforms_ret, rule TrueI)
  then show ?thesis by (simp add: before_cleanup_calls_def)
qed

lemma conforms_notebook: "conforms notebook (\<lambda>_. True) notebook_calls"
proof -
  have "conforms notebook (\<lambda>_. True) (before_cleanup_calls @ [CancelAllJobs] @ [])"
    unfolding notebook_def sc_cancelAllJobs_def
    by (rule conforms_andthen, rule conforms_before_cleanup,
        rule conforms_andthen, rule conforms_extern,
        rule conforms_ret, rule TrueI)
  then show ?thesis by (simp add: notebook_calls_def)
qed

subsection \<open>From a script to the calls of a run\<close>

lemma conforms_issued_prefix: "conforms m Q cs \<Longrightarrow> prefix (issued w (snd (m w))) cs"
  using issued_script [of w cs] by (simp add: conforms_def)

lemma conforms_issued_Inr:
  assumes "conforms m Q cs" and "fst (m w) = Inr v"
  shows "issued w (snd (m w)) = cs \<and> Q v"
proof -
  from assms have "fst (script cs w) = Inr () \<and> Q v" and "snd (m w) = snd (script cs w)"
    by (auto simp: conforms_def split: sum.splits dest!: spec [of _ w])
  then show ?thesis by (simp add: issued_script_Inr)
qed

lemma conforms_returns:
  assumes "conforms m Q cs" and "fst (script cs w) = Inr ()"
  shows "\<exists>v. fst (m w) = Inr v \<and> Q v"
proof (cases "fst (m w)")
  case (Inl e)
  with assms(1) have "fst (script cs w) = Inl e"
    by (auto simp: conforms_def split: sum.splits dest!: spec [of _ w])
  with assms(2) show ?thesis by simp
next
  case (Inr v)
  with assms(1) have "Q v"
    by (auto simp: conforms_def split: sum.splits dest!: spec [of _ w])
  with Inr show ?thesis by simp
qed

lemma conforms_calm:
  assumes "conforms m Q cs" and "engine w = calm_engine"
  shows "issued w (snd (m w)) = cs \<and> (\<exists>v. fst (m w) = Inr v \<and> Q v)"
proof -
  have ok: "fst (script cs w) = Inr ()" by (rule script_calm [OF assms(2)])
  from conforms_returns [OF assms(1) ok] obtain v where v: "fst (m w) = Inr v" "Q v"
    by blast
  with conforms_issued_Inr [OF assms(1) v(1)] show ?thesis by simp
qed

lemma list_all_concat_map:
  "(\<And>x. x \<in> set xs \<Longrightarrow> list_all P (f x)) \<Longrightarrow> list_all P (concat (map f xs))"
  by (induction xs) simp_all

lemma list_all_ten_sizes: "(\<And>x. list_all P (calls x)) \<Longrightarrow> list_all P (ten_sizes calls)"
  unfolding ten_sizes_def by (rule list_all_concat_map)

lemma list_all_prefix: "prefix p cs \<Longrightarrow> list_all P cs \<Longrightarrow> list_all P p"
  by (auto simp: prefix_def)

lemma written_paths_subset:
  "list_all (\<lambda>c. persists c \<longrightarrow> overwrites q c) cs \<Longrightarrow> set (written_paths cs) \<subseteq> {q}"
proof (induction cs rule: written_paths.induct)
  case (2 wr p cs)
  then show ?case by (cases wr) simp
qed simp_all

lemma written_paths_append: "written_paths (cs @ ds) = written_paths cs @ written_paths ds"
  by (induction cs rule: written_paths.induct) simp_all

lemma filter_prefix_length:
  "prefix p cs \<Longrightarrow> length (filter P p) \<le> length (filter P cs)"
  by (auto simp: prefix_def)

lemma conforms_raises:
  assumes "conforms m Q cs" and "fst (script cs w) = Inl e"
  shows "fst (m w) = Inl e"
proof (cases "fst (m w)")
  case (Inl e')
  with assms(1) have "fst (script cs w) = Inl e'"
    by (auto simp: conforms_def split: sum.splits dest!: spec [of _ w])
  with assms(2) Inl show ?thesis by simp
next
  case (Inr v)
  with assms(1) have "fst (script cs w) = Inr ()"
    by (auto simp: conforms_def split: sum.splits dest!: spec [of _ w])
  with assms(2) show ?thesis by simp
qed

subsection \<open>The first exception is the last call\<close>

lemma answer_0: "answer w (c # p) 0 = fst (engine w (history w) c)"
  by (simp add: answer_def)

lemma answer_Suc:
  assumes "history w1 = history w @ [c]" and "engine w1 = engine w"
  shows "answer w (c # p) (Suc j) = answer w1 p j"
  using assms by (simp add: answer_def)

lemma script_answers:
  assumes "history (snd (script cs w)) = history w @ p"
    and "i < length p" and "answer w p i = Inl e"
  shows "Suc i = length p \<and> fst (script cs w) = Inl e"
  using assms
proof (induction cs arbitrary: w p i)
  case Nil
  then show ?case by simp
next
  case (Cons c cs)
  obtain r w1 where e: "extern c w = (r, w1)" by (cases "extern c w")
  have r: "r = fst (engine w (history w) c)"
    using e by (auto simp: extern_def split: prod.splits)
  have h1: "history w1 = history w @ [c]" using extern_history [of c w] e by simp
  have e1: "engine w1 = engine w" using extern_engine [of c w] e by simp
  show ?case
  proof (cases r)
    case (Inl x)
    with e h1 Cons.prems(1) have p: "p = [c]" by simp
    with Cons.prems(2) have "i = 0" by simp
    with p Cons.prems(3) r Inl have "x = e" by (simp add: answer_0)
    with p \<open>i = 0\<close> e Inl show ?thesis by simp
  next
    case (Inr v)
    with e have s: "script (c # cs) w = script cs w1" by simp
    from script_history [of cs w1] obtain q where
      q: "history (snd (script cs w1)) = history w1 @ q" by blast
    with s h1 Cons.prems(1) have p: "p = c # q" by simp
    show ?thesis
    proof (cases i)
      case 0
      with p Cons.prems(3) r Inr show ?thesis by (simp add: answer_0)
    next
      case (Suc j)
      with p Cons.prems(2) have j: "j < length q" by simp
      from Suc p Cons.prems(3) have "answer w1 q j = Inl e"
        by (simp add: answer_Suc [OF h1 e1])
      from Cons.IH [OF q j this] s p Suc show ?thesis by simp
    qed
  qed
qed

lemma conforms_answers:
  assumes c: "conforms m Q cs"
    and i: "i < length (issued w (snd (m w)))"
    and a: "answer w (issued w (snd (m w))) i = Inl e"
  shows "Suc i = length (issued w (snd (m w))) \<and> fst (m w) = Inl e"
proof -
  have eq: "snd (m w) = snd (script cs w)" using c by (simp add: conforms_def)
  from script_history [of cs w] obtain p where
    p: "history (snd (script cs w)) = history w @ p" by blast
  then have ip: "issued w (snd (m w)) = p" by (simp add: eq issued_def)
  from script_answers [OF p] i a ip have "Suc i = length p \<and> fst (script cs w) = Inl e"
    by simp
  with ip conforms_raises [OF c] show ?thesis by simp
qed

section \<open>The claims\<close>

text \<open>
  C2. For every argument, \<open>slow_func\<close> issues the one call \<open>time.sleep(1)\<close>; when the
  sleep returns, \<open>slow_func\<close> returns its argument unchanged; when the sleep raises, the
  exception is the outcome. Either way the world is the one the sleep left.
\<close>

theorem slow_func_identity:
  "slow_func ping w =
     (case engine w (history w) (TimeSleep 1) of
        (Inl e, t) \<Rightarrow> (Inl e, w\<lparr>clock := t, history := history w @ [TimeSleep 1]\<rparr>)
      | (Inr u, t) \<Rightarrow> (Inr ping, w\<lparr>clock := t, history := history w @ [TimeSleep 1]\<rparr>))"
  by (simp add: slow_func_def time_sleep_def andthen_def ret_def extern_def
           split: prod.splits sum.splits)

text \<open>
  C3. For every zero-argument operation \<open>func\<close>, \<open>timer func\<close> runs \<open>func\<close> once, from
  the world \<open>timer\<close> was called in: the world \<open>timer\<close> leaves is the world that one run
  of \<open>func\<close> leaves, and the result is the clock reading after the run minus the
  reading before it. An exception of \<open>func\<close> is the outcome of \<open>timer\<close>.
\<close>

theorem timer_elapsed_once:
  "timer func w =
     (case func w of
        (Inl e, w') \<Rightarrow> (Inl e, w')
      | (Inr r, w') \<Rightarrow> (Inr (clock w' - clock w), w'))"
  by (simp add: timer_def andthen_def time_time_def ret_def
           split: prod.splits sum.splits)

text \<open>
  C10. \<open>timer\<close> discards what the timed operation returns: two operations (of any
  result types) that return from the same world with the clock at the same reading give
  the same result of \<open>timer\<close>, the elapsed time and nothing else.
\<close>

theorem timer_discards_result:
  assumes "func1 w = (Inr a, w1)" and "func2 w = (Inr b, w2)" and "clock w1 = clock w2"
  shows "fst (timer func1 w) = Inr (clock w1 - clock w) \<and>
         fst (timer func2 w) = fst (timer func1 w)"
  using assms by (simp add: timer_cases)

theorem timer_discards_result_witness:
  "slow_func (10::int) calm_world = (Inr 10, calm_world\<lparr>clock := 1, history := [TimeSleep 1]\<rparr>) \<and>
   slow_func ''ping'' calm_world =
     (Inr ''ping'', calm_world\<lparr>clock := 1, history := [TimeSleep 1]\<rparr>) \<and>
   fst (timer (slow_func (10::int)) calm_world) = Inr 1 \<and>
   fst (timer (slow_func ''ping'') calm_world) = fst (timer (slow_func (10::int)) calm_world)"
proof -
  have a: "slow_func (10::int) calm_world =
      (Inr 10, calm_world\<lparr>clock := 1, history := [TimeSleep 1]\<rparr>)"
    by (simp add: slow_func_def time_sleep_def andthen_def ret_def extern_def
          calm_world_def calm_engine_def)
  have b: "slow_func ''ping'' calm_world =
      (Inr ''ping'', calm_world\<lparr>clock := 1, history := [TimeSleep 1]\<rparr>)"
    by (simp add: slow_func_def time_sleep_def andthen_def ret_def extern_def
          calm_world_def calm_engine_def)
  from timer_discards_result
      [of "slow_func (10::int)" calm_world 10
          "calm_world\<lparr>clock := 1, history := [TimeSleep 1]\<rparr>"
          "slow_func ''ping''" "''ping''"
          "calm_world\<lparr>clock := 1, history := [TimeSleep 1]\<rparr>"] a b
  show ?thesis by (simp add: calm_world_def)
qed

text \<open>
  C5. In every run of the notebook, against every engine, each call that writes to the
  file system is a parquet write to \<open>path\<close> by a writer in overwrite mode, so the only
  path written is \<open>path\<close>.
\<close>

theorem writes_overwrite_one_path:
  "list_all (\<lambda>c. persists c \<longrightarrow> overwrites path c) (issued w (snd (notebook w))) \<and>
   set (written_paths (issued w (snd (notebook w)))) \<subseteq> {path}"
proof -
  let ?P = "\<lambda>c. persists c \<longrightarrow> overwrites path c"
  have "list_all ?P notebook_calls"
    unfolding notebook_calls_def before_cleanup_calls_def list_all_append
    by (intro conjI list_all_ten_sizes)
       (simp_all add: simple_rdd_calls_def spark_dataframe_calls_def
          offending_example_calls_def repartition_fixes_calls_def path_def Let_def)
  with conforms_issued_prefix [OF conforms_notebook, of w]
  have "list_all ?P (issued w (snd (notebook w)))" by (rule list_all_prefix)
  then show ?thesis by (simp add: written_paths_subset)
qed

lemma engine_calm_world: "engine calm_world = calm_engine"
  by (simp add: calm_world_def)

lemma written_paths_notebook_calls:
  "written_paths notebook_calls = replicate 30 ''~/tmp.parquet''"
  by (simp add: notebook_calls_def before_cleanup_calls_def ten_sizes_def py_range_10
      simple_rdd_calls_def spark_dataframe_calls_def offending_example_calls_def
      repartition_fixes_calls_def Let_def written_paths_append numeral_eq_Suc)

theorem writes_overwrite_one_path_witness:
  "written_paths (issued calm_world (snd (notebook calm_world))) = replicate 30 path \<and>
   list_all (\<lambda>c. persists c \<longrightarrow> overwrites path c)
     (issued calm_world (snd (notebook calm_world)))"
proof -
  have "issued calm_world (snd (notebook calm_world)) = notebook_calls"
    using conforms_calm [OF conforms_notebook engine_calm_world] by simp
  with writes_overwrite_one_path [of calm_world] show ?thesis
    by (simp add: written_paths_notebook_calls path_def)
qed

text \<open>
  C7. Nothing in the notebook handles an exception. An exception of the timed operation
  is the outcome of \<open>timer\<close>, one of the sleep the outcome of \<open>slow_func\<close>, one of
  \<open>createDataFrame\<close> the outcome of \<open>create_frame\<close>, each in the world the failed
  call left. In every run of an experiment cell, and of the whole notebook, a call the
  engine answers with an exception is the last call issued, and that exception is the
  outcome of the run: nothing is retried and nothing is called in its place.
\<close>

theorem exceptions_propagate:
  fixes w :: "'t::minus world"
  shows
  "(func w = (Inl e1, w1) \<longrightarrow> timer func w = (Inl e1, w1)) \<and>
   (time_sleep 1 w = (Inl e2, w2) \<longrightarrow> slow_func ping w = (Inl e2, w2)) \<and>
   (sqlContext_createDataFrame r LongType w = (Inl e3, w3) \<longrightarrow>
      create_frame r w = (Inl e3, w3)) \<and>
   (\<forall>(cell, calls) \<in> set experiment_table. \<forall>i e.
      i < length (issued w (snd (cell w))) \<and>
      answer w (issued w (snd (cell w))) i = Inl e \<longrightarrow>
      Suc i = length (issued w (snd (cell w))) \<and> fst (cell w) = Inl e) \<and>
   (\<forall>i e.
      i < length (issued w (snd (notebook w))) \<and>
      answer w (issued w (snd (notebook w))) i = Inl e \<longrightarrow>
      Suc i = length (issued w (snd (notebook w))) \<and> fst (notebook w) = Inl e)"
proof (intro conjI)
  show "func w = (Inl e1, w1) \<longrightarrow> timer func w = (Inl e1, w1)"
    by (simp add: timer_cases)
  show "time_sleep 1 w = (Inl e2, w2) \<longrightarrow> slow_func ping w = (Inl e2, w2)"
    by (simp add: slow_func_def andthen_def)
  show "sqlContext_createDataFrame r LongType w = (Inl e3, w3) \<longrightarrow>
      create_frame r w = (Inl e3, w3)"
    by (simp add: create_frame_def)
  show "\<forall>(cell, calls) \<in> set experiment_table. \<forall>i e.
      i < length (issued w (snd (cell w))) \<and>
      answer w (issued w (snd (cell w))) i = Inl e \<longrightarrow>
      Suc i = length (issued w (snd (cell w))) \<and> fst (cell w) = Inl e"
    using conforms_answers [OF conforms_table] by blast
  show "\<forall>i e.
      i < length (issued w (snd (notebook w))) \<and>
      answer w (issued w (snd (notebook w))) i = Inl e \<longrightarrow>
      Suc i = length (issued w (snd (notebook w))) \<and> fst (notebook w) = Inl e"
    using conforms_answers [OF conforms_notebook] by blast
qed

lemmas run_simps =
  timer_cases andthen_def ret_def extern_def time_sleep_def slow_func_def
  sc_parallelize_def rdd_map_def rdd_take_def create_frame_def
  sqlContext_createDataFrame_def sc_defaultParallelism_def issued_def answer_def

lemma simple_rdd_flaky:
  "simple_rdd flaky_world =
     (Inl (PyExn ''cancelled''),
      flaky_world\<lparr>clock := 5,
        history := [Parallelize [], RddMap (Parallelized []) SlowFunc,
                    RddTake (Mapped (Parallelized []) SlowFunc) 0,
                    Parallelize [0], RddMap (Parallelized [0]) SlowFunc]\<rparr>)"
  by (simp add: simple_rdd_def simple_rdd_job_def py_range_10 py_range_0 py_range_1
        run_simps flaky_world_def flaky_engine_def)

lemma notebook_flaky:
  "snd (notebook flaky_world) =
      flaky_world\<lparr>clock := 5,
        history := [DefaultParallelism, TimeSleep 1, Parallelize [],
                    RddMap (Parallelized []) SlowFunc,
                    RddTake (Mapped (Parallelized []) SlowFunc) 0]\<rparr>"
  by (simp add: notebook_def before_cleanup_def example_usage_def experiments_def
        simple_rdd_def simple_rdd_job_def py_range_10 py_range_0 py_range_1
        run_simps flaky_world_def flaky_engine_def)

theorem exceptions_propagate_witness:
  "time_sleep 1 stopped_world =
     (Inl (PyExn ''stopped''), stopped_world\<lparr>clock := 1, history := [TimeSleep 1]\<rparr>) \<and>
   slow_func (10::int) stopped_world =
     (Inl (PyExn ''stopped''), stopped_world\<lparr>clock := 1, history := [TimeSleep 1]\<rparr>) \<and>
   timer (slow_func (10::int)) stopped_world =
     (Inl (PyExn ''stopped''), stopped_world\<lparr>clock := 1, history := [TimeSleep 1]\<rparr>) \<and>
   sqlContext_createDataFrame (Parallelized []) LongType stopped_world =
     (Inl (PyExn ''stopped''),
      stopped_world\<lparr>clock := 1, history := [CreateDataFrame (Parallelized []) LongType]\<rparr>) \<and>
   create_frame (Parallelized []) stopped_world =
     (Inl (PyExn ''stopped''),
      stopped_world\<lparr>clock := 1, history := [CreateDataFrame (Parallelized []) LongType]\<rparr>) \<and>
   length (issued flaky_world (snd (simple_rdd flaky_world))) = 5 \<and>
   answer flaky_world (issued flaky_world (snd (simple_rdd flaky_world))) 4 =
     Inl (PyExn ''cancelled'') \<and>
   fst (simple_rdd flaky_world) = Inl (PyExn ''cancelled'') \<and>
   length (issued flaky_world (snd (notebook flaky_world))) = 5 \<and>
   answer flaky_world (issued flaky_world (snd (notebook flaky_world))) 4 =
     Inl (PyExn ''cancelled'') \<and>
   fst (notebook flaky_world) = Inl (PyExn ''cancelled'')"
proof -
  let ?W = "stopped_world\<lparr>clock := 1, history := [TimeSleep 1]\<rparr>"
  let ?F = "stopped_world\<lparr>clock := 1,
              history := [CreateDataFrame (Parallelized []) LongType]\<rparr>"
  note stopped = exceptions_propagate
    [where w = stopped_world and func = "slow_func (10::int)" and ping = "10::int"
       and r = "Parallelized []"
       and ?e1.0 = "PyExn ''stopped''" and ?e2.0 = "PyExn ''stopped''"
       and ?e3.0 = "PyExn ''stopped''" and ?w1.0 = ?W and ?w2.0 = ?W and ?w3.0 = ?F]
  note flaky = exceptions_propagate
    [where w = flaky_world and func = "slow_func (10::int)" and ping = "10::int"]
  have sleep: "time_sleep 1 stopped_world = (Inl (PyExn ''stopped''), ?W)"
    by (simp add: time_sleep_def extern_def stopped_world_def stopped_engine_def)
  with stopped have slow: "slow_func (10::int) stopped_world = (Inl (PyExn ''stopped''), ?W)"
    by blast
  with stopped have timed: "timer (slow_func (10::int)) stopped_world =
      (Inl (PyExn ''stopped''), ?W)"
    by blast
  have create: "sqlContext_createDataFrame (Parallelized []) LongType stopped_world =
      (Inl (PyExn ''stopped''), ?F)"
    by (simp add: sqlContext_createDataFrame_def andthen_def extern_def
          stopped_world_def stopped_engine_def)
  with stopped have framed: "create_frame (Parallelized []) stopped_world =
      (Inl (PyExn ''stopped''), ?F)"
    by blast
  have member: "(simple_rdd, simple_rdd_calls) \<in> set experiment_table"
    by (simp add: experiment_table_def)
  have cell_answer:
    "4 < length (issued flaky_world (snd (simple_rdd flaky_world))) \<and>
     answer flaky_world (issued flaky_world (snd (simple_rdd flaky_world))) 4 =
       Inl (PyExn ''cancelled'')"
    unfolding simple_rdd_flaky
    by (simp add: issued_def answer_def flaky_world_def flaky_engine_def)
  from flaky have "\<forall>(cell, calls) \<in> set experiment_table. \<forall>i e.
      i < length (issued flaky_world (snd (cell flaky_world))) \<and>
      answer flaky_world (issued flaky_world (snd (cell flaky_world))) i = Inl e \<longrightarrow>
      Suc i = length (issued flaky_world (snd (cell flaky_world))) \<and>
      fst (cell flaky_world) = Inl e"
    by blast
  from bspec [OF this member] cell_answer
  have cell: "Suc 4 = length (issued flaky_world (snd (simple_rdd flaky_world))) \<and>
      fst (simple_rdd flaky_world) = Inl (PyExn ''cancelled'')"
    by blast
  have nb_answer:
    "4 < length (issued flaky_world (snd (notebook flaky_world))) \<and>
     answer flaky_world (issued flaky_world (snd (notebook flaky_world))) 4 =
       Inl (PyExn ''cancelled'')"
    unfolding notebook_flaky
    by (simp add: issued_def answer_def flaky_world_def flaky_engine_def)
  with flaky
  have nb: "Suc 4 = length (issued flaky_world (snd (notebook flaky_world))) \<and>
      fst (notebook flaky_world) = Inl (PyExn ''cancelled'')"
    by blast
  from sleep slow timed create framed cell cell_answer nb nb_answer show ?thesis
    by simp
qed

lemma conforms_history:
  "conforms m Q cs \<Longrightarrow> \<exists>p. prefix p cs \<and> history (snd (m w)) = history w @ p"
  using script_history [of cs w] by (simp add: conforms_def)

lemma no_cancel_before_cleanup: "CancelAllJobs \<notin> set before_cleanup_calls"
  by (simp add: before_cleanup_calls_def ten_sizes_def py_range_10
      simple_rdd_calls_def spark_dataframe_calls_def offending_example_calls_def
      repartition_fixes_calls_def Let_def)

text \<open>
  C6. In every run of the notebook, against every engine, \<open>cancelAllJobs\<close> is issued at
  most once and never before the last call of the run; and whenever the cells before the
  last one have run to their end, it is issued, as the one call after theirs.
\<close>

theorem cancel_only_as_last_step:
  fixes w :: "'t::minus world"
  shows
  "CancelAllJobs \<notin> set (butlast (issued w (snd (notebook w)))) \<and>
   length (filter (\<lambda>c. c = CancelAllJobs) (issued w (snd (notebook w)))) \<le> 1 \<and>
   (\<forall>outs w'. before_cleanup w = (Inr outs, w') \<longrightarrow>
      issued w (snd (notebook w)) = issued w w' @ [CancelAllJobs])"
proof -
  let ?p = "issued w (snd (notebook w))"
  have "prefix ?p (before_cleanup_calls @ [CancelAllJobs])"
    using conforms_issued_prefix [OF conforms_notebook, of w] by (simp add: notebook_calls_def)
  then consider (whole) "?p = before_cleanup_calls @ [CancelAllJobs]"
    | (part) "prefix ?p before_cleanup_calls"
    by auto
  then have early: "CancelAllJobs \<notin> set (butlast ?p) \<and>
      length (filter (\<lambda>c. c = CancelAllJobs) ?p) \<le> 1"
  proof cases
    case whole
    have "filter (\<lambda>c. c = CancelAllJobs) before_cleanup_calls = []"
      using no_cancel_before_cleanup by (auto simp: filter_empty_conv)
    with whole no_cancel_before_cleanup show ?thesis by simp
  next
    case part
    then have "set ?p \<subseteq> set before_cleanup_calls" by (rule set_mono_prefix)
    with no_cancel_before_cleanup have none: "CancelAllJobs \<notin> set ?p" by blast
    then have "filter (\<lambda>c. c = CancelAllJobs) ?p = []" by (auto simp: filter_empty_conv)
    with none show ?thesis by (auto dest: in_set_butlastD)
  qed
  have late: "issued w (snd (notebook w)) = issued w w' @ [CancelAllJobs]"
    if b: "before_cleanup w = (Inr outs, w')" for outs w'
  proof -
    from conforms_history [OF conforms_before_cleanup, of w] b obtain q where
      q: "history w' = history w @ q" by auto
    have "snd (notebook w) = snd (extern CancelAllJobs w')"
      using b by (simp add: notebook_def andthen_def sc_cancelAllJobs_def ret_def
            split: prod.splits sum.splits)
    then have "history (snd (notebook w)) = history w' @ [CancelAllJobs]"
      by (simp add: extern_history)
    with q show ?thesis by (simp add: issued_def)
  qed
  from early late show ?thesis by blast
qed

theorem cancel_only_as_last_step_witness:
  "fst (before_cleanup calm_world) =
     Inr [OutValue PyNone, OutTime 1, OutTimes [3, 3, 3, 3, 3, 3, 3, 3, 3, 3],
          OutTimes [6, 6, 6, 6, 6, 6, 6, 6, 6, 6], OutTimes [7, 7, 7, 7, 7, 7, 7, 7, 7, 7],
          OutTimes [7, 7, 7, 7, 7, 7, 7, 7, 7, 7]] \<and>
   issued calm_world (snd (notebook calm_world)) = before_cleanup_calls @ [CancelAllJobs] \<and>
   CancelAllJobs \<notin> set (butlast (issued calm_world (snd (notebook calm_world))))"
proof -
  let ?outs = "[OutValue PyNone, OutTime 1, OutTimes [3, 3, 3, 3, 3, 3, 3, 3, 3, 3],
          OutTimes [6, 6, 6, 6, 6, 6, 6, 6, 6, 6], OutTimes [7, 7, 7, 7, 7, 7, 7, 7, 7, 7],
          OutTimes [7, 7, 7, 7, 7, 7, 7, 7, 7, (7::int)]]"
  have run: "fst (before_cleanup calm_world) = Inr ?outs"
    by code_simp
  have calls: "issued calm_world (snd (before_cleanup calm_world)) = before_cleanup_calls"
    using conforms_calm [OF conforms_before_cleanup engine_calm_world] by simp
  from run have returned: "before_cleanup calm_world = (Inr ?outs, snd (before_cleanup calm_world))"
    by (simp add: prod_eq_iff)
  note inst = cancel_only_as_last_step [of calm_world]
  from inst have early:
    "CancelAllJobs \<notin> set (butlast (issued calm_world (snd (notebook calm_world))))"
    by (rule conjunct1)
  from inst returned have "issued calm_world (snd (notebook calm_world)) =
      issued calm_world (snd (before_cleanup calm_world)) @ [CancelAllJobs]"
    by blast
  with calls have "issued calm_world (snd (notebook calm_world)) =
      before_cleanup_calls @ [CancelAllJobs]"
    by simp
  with run early show ?thesis by (intro conjI)
qed

subsection \<open>Jobs, measurements and input sizes\<close>

lemma one_action_per_job:
  "(cell, calls) \<in> set experiment_table \<Longrightarrow>
     length (filter runs_job (calls x)) = 1 \<and> runs_job (last (calls x))"
  by (auto simp: experiment_table_def simple_rdd_calls_def spark_dataframe_calls_def
        offending_example_calls_def repartition_fixes_calls_def Let_def)

lemma ten_actions:
  assumes "\<And>x. length (filter runs_job (calls x)) = 1"
  shows "length (filter runs_job (ten_sizes calls)) = 10"
  by (simp add: ten_sizes_def py_range_10 assms)

lemma experiment_calm:
  assumes "(cell, calls) \<in> set experiment_table"
  shows "issued calm_world (snd (cell calm_world)) = ten_sizes calls \<and>
         (\<exists>ts. fst (cell calm_world) = Inr ts \<and> length ts = 10)"
  by (rule conforms_calm [OF conforms_table [OF assms] engine_calm_world])

lemma offending_example_in_table:
  "(offending_example, offending_example_calls) \<in> set experiment_table"
  by (simp add: experiment_table_def)

lemma simple_rdd_in_table: "(simple_rdd, simple_rdd_calls) \<in> set experiment_table"
  by (simp add: experiment_table_def)

lemma spark_dataframe_in_table:
  "(spark_dataframe, spark_dataframe_calls) \<in> set experiment_table"
  by (simp add: experiment_table_def)

text \<open>
  C8, as stated, fails: a run of the offending-example cell against an engine that never
  raises issues ten blocking calls, not one, and records ten elapsed times, not one.
\<close>

theorem one_blocking_call_counterexample:
  "length (filter runs_job (issued calm_world (snd (offending_example calm_world)))) = 10 \<and>
   map_sum id length (fst (offending_example calm_world)) = Inr 10"
proof -
  from experiment_calm [OF offending_example_in_table] obtain ts where
    calls: "issued calm_world (snd (offending_example calm_world)) =
              ten_sizes offending_example_calls"
    and ts: "fst (offending_example calm_world) = Inr ts" "length ts = 10"
    by blast
  have "length (filter runs_job (ten_sizes offending_example_calls)) = 10"
    by (rule ten_actions) (simp add: one_action_per_job [OF offending_example_in_table])
  with calls ts show ?thesis by simp
qed

subsection \<open>What a timed job measures and on what data\<close>

lemma upto_nat: "[0..int k - 1] = map int [0..<k]"
proof (induction k)
  case 0
  show ?case by simp
next
  case (Suc k)
  have "[0..int (Suc k) - 1] = [0..int k - 1] @ [int k]"
    using upto_rec2 [of 0 "int k"] by simp
  with Suc show ?case by simp
qed

lemma py_range_upt: "py_range n = map int [0..<nat n]"
proof (cases "0 \<le> n")
  case True
  with upto_nat [of "nat n"] show ?thesis by (simp add: py_range_def)
next
  case False
  then show ?thesis by (simp add: py_range_def)
qed

lemma py_range_table:
  "map py_range [0, 1, 2, 3, 4, 5, 6, 7, 8, 9] =
     [[], [0], [0, 1], [0, 1, 2], [0, 1, 2, 3], [0, 1, 2, 3, 4], [0, 1, 2, 3, 4, 5],
      [0, 1, 2, 3, 4, 5, 6], [0, 1, 2, 3, 4, 5, 6, 7], [0, 1, 2, 3, 4, 5, 6, 7, 8]]"
  unfolding py_range_def by code_simp

lemma first_call_parallelizes:
  "(cell, calls) \<in> set experiment_table \<Longrightarrow>
     hd (calls x) = Parallelize (map int [0..<nat x])"
  by (auto simp: experiment_table_def simple_rdd_calls_def spark_dataframe_calls_def
        offending_example_calls_def repartition_fixes_calls_def Let_def py_range_upt)

lemma timed_job_script:
  assumes "conforms (job x) Q (calls x)"
  shows "timer (job x) w =
     (case script (calls x) w of
        (Inl e, w') \<Rightarrow> (Inl e, w')
      | (Inr u, w') \<Rightarrow> (Inr (clock w' - clock w), w'))"
proof -
  obtain r w1 where j: "job x w = (r, w1)" by (cases "job x w")
  show ?thesis
  proof (cases r)
    case (Inl e)
    with j conforms_Inl [OF assms] have "script (calls x) w = (Inl e, w1)" by simp
    with j Inl show ?thesis by (simp add: timer_cases)
  next
    case (Inr v)
    with j conforms_Inr [OF assms] have "script (calls x) w = (Inr (), w1)" by simp
    with j Inr show ?thesis by (simp add: timer_cases)
  qed
qed

lemma conforms_job_table:
  "(job, calls) \<in> set job_table \<Longrightarrow> conforms (job x) (\<lambda>_. True) (calls x)"
  unfolding job_table_def
  using conforms_simple_rdd_job conforms_spark_dataframe_job conforms_offending_example_job
    conforms_repartition_fixes_job
  by auto

lemma timed_jobs_elapsed:
  assumes conf: "\<And>x. conforms (job x) Q (calls x)"
  shows "py_map (\<lambda>x. timer (job x)) xs w = (Inr ts, w') \<Longrightarrow>
         ts = elapsed_times (map calls xs) w"
proof (induction xs arbitrary: w ts)
  case Nil
  then show ?case by simp
next
  case (Cons x xs)
  from Cons.prems obtain y w1 ys where
    t: "timer (job x) w = (Inr y, w1)" and
    rest: "py_map (\<lambda>x. timer (job x)) xs w1 = (Inr ys, w')" and
    ts: "ts = y # ys"
    by (auto split: prod.splits sum.splits)
  from t obtain r where j: "job x w = (Inr r, w1)" and y: "y = clock w1 - clock w"
    by (auto simp: timer_cases split: prod.splits sum.splits)
  from conforms_Inr [OF conf j] have "script (calls x) w = (Inr (), w1)" by simp
  with Cons.IH [OF rest] y ts show ?case by simp
qed

lemma elapsed_table:
  assumes "(cell, calls) \<in> set experiment_table" and "fst (cell w) = Inr ts"
  shows "ts = elapsed_times (map calls [0, 1, 2, 3, 4, 5, 6, 7, 8, 9]) w"
proof -
  let ?sizes = "[0, 1, 2, 3, 4, 5, 6, 7, 8, 9] :: int list"
  from assms(2) have run: "cell w = (Inr ts, snd (cell w))" by (simp add: prod_eq_iff)
  from assms(1) have
    "(cell = simple_rdd \<and> calls = simple_rdd_calls) \<or>
     (cell = spark_dataframe \<and> calls = spark_dataframe_calls) \<or>
     (cell = offending_example \<and> calls = offending_example_calls) \<or>
     (cell = repartition_fixes \<and> calls = repartition_fixes_calls)"
    by (auto simp: experiment_table_def)
  moreover
  {
    assume c: "cell = simple_rdd" "calls = simple_rdd_calls"
    have "py_map (\<lambda>x. timer (simple_rdd_job x)) ?sizes w = (Inr ts, snd (cell w))"
      using run c(1) by (simp only: simple_rdd_def py_range_10)
    from timed_jobs_elapsed
      [where job = simple_rdd_job and calls = simple_rdd_calls and Q = "\<lambda>_. True",
        OF conforms_simple_rdd_job this]
    have ?thesis by (simp only: c(2))
  }
  moreover
  {
    assume c: "cell = spark_dataframe" "calls = spark_dataframe_calls"
    have "py_map (\<lambda>x. timer (spark_dataframe_job x)) ?sizes w = (Inr ts, snd (cell w))"
      using run c(1) by (simp only: spark_dataframe_def py_range_10)
    from timed_jobs_elapsed
      [where job = spark_dataframe_job and calls = spark_dataframe_calls and Q = "\<lambda>_. True",
        OF conforms_spark_dataframe_job this]
    have ?thesis by (simp only: c(2))
  }
  moreover
  {
    assume c: "cell = offending_example" "calls = offending_example_calls"
    have "py_map (\<lambda>x. timer (offending_example_job x)) ?sizes w = (Inr ts, snd (cell w))"
      using run c(1) by (simp only: offending_example_def py_range_10)
    from timed_jobs_elapsed
      [where job = offending_example_job and calls = offending_example_calls and Q = "\<lambda>_. True",
        OF conforms_offending_example_job this]
    have ?thesis by (simp only: c(2))
  }
  moreover
  {
    assume c: "cell = repartition_fixes" "calls = repartition_fixes_calls"
    have "py_map (\<lambda>x. timer (repartition_fixes_job x)) ?sizes w = (Inr ts, snd (cell w))"
      using run c(1) by (simp only: repartition_fixes_def py_range_10)
    from timed_jobs_elapsed
      [where job = repartition_fixes_job and calls = repartition_fixes_calls and Q = "\<lambda>_. True",
        OF conforms_repartition_fixes_job this]
    have ?thesis by (simp only: c(2))
  }
  ultimately show ?thesis by blast
qed

lemma elapsed_simple_rdd_calm:
  "elapsed_times (map simple_rdd_calls [0, 1, 2, 3, 4, 5, 6, 7, 8, 9]) calm_world =
     [3, 3, 3, 3, 3, 3, 3, 3, 3, 3]"
  by code_simp

lemma elapsed_spark_dataframe_calm:
  "elapsed_times (map spark_dataframe_calls [0, 1, 2, 3, 4, 5, 6, 7, 8, 9]) calm_world =
     [6, 6, 6, 6, 6, 6, 6, 6, 6, 6]"
  by code_simp

lemma simple_rdd_job_in_table: "(simple_rdd_job, simple_rdd_calls) \<in> set job_table"
  by (simp add: job_table_def)

text \<open>
  C8, amended. Each experiment cell runs its timed job once for each of the ten input
  sizes 0 to 9, in order, the job for size \<open>x\<close> starting from \<^verbatim>\<open>range(x)\<close>. A timed job issues the calls of the job, of which exactly one is
  a blocking call (the \<open>take\<close> or the parquet write), the last of them; once that call
  has returned, \<open>timer\<close> returns one elapsed time for the job: what the clock reads
  after the job's last call minus what it read before its first. In every run a cell
  issues a prefix of the calls of its ten jobs, so at most ten blocking calls; a cell
  that returns has issued all of them, ten blocking calls, and returns the ten elapsed
  times of its ten jobs, in order. In a run of the notebook the calls are those of the
  cells in the order of the cells.
\<close>

theorem one_blocking_call_per_job:
  fixes w :: "'t::minus world"
  shows
  "py_range 10 = [0, 1, 2, 3, 4, 5, 6, 7, 8, 9] \<and>
   (\<forall>(job, calls) \<in> set job_table. \<forall>x.
      timer (job x) w =
        (case script (calls x) w of
           (Inl e, w') \<Rightarrow> (Inl e, w')
         | (Inr u, w') \<Rightarrow> (Inr (clock w' - clock w), w'))) \<and>
   (\<forall>(cell, calls) \<in> set experiment_table.
      (\<forall>x. hd (calls x) = Parallelize (map int [0..<nat x])) \<and>
      (\<forall>x. length (filter runs_job (calls x)) = 1 \<and> runs_job (last (calls x))) \<and>
      prefix (issued w (snd (cell w))) (ten_sizes calls) \<and>
      length (filter runs_job (issued w (snd (cell w)))) \<le> 10 \<and>
      (\<forall>ts. fst (cell w) = Inr ts \<longrightarrow>
         length ts = 10 \<and> issued w (snd (cell w)) = ten_sizes calls \<and>
         length (filter runs_job (issued w (snd (cell w)))) = 10 \<and>
         ts = elapsed_times (map calls [0, 1, 2, 3, 4, 5, 6, 7, 8, 9]) w)) \<and>
   prefix (issued w (snd (notebook w)))
     ([DefaultParallelism, TimeSleep 1] @
      ten_sizes simple_rdd_calls @ ten_sizes spark_dataframe_calls @
      ten_sizes offending_example_calls @ ten_sizes repartition_fixes_calls @
      [CancelAllJobs])"
proof (intro conjI ballI)
  show "py_range 10 = [0, 1, 2, 3, 4, 5, 6, 7, 8, 9]" by (rule py_range_10)
next
  fix entry :: "(int \<Rightarrow> (payload, 't) prog) \<times> (int \<Rightarrow> call list)"
  assume entry: "entry \<in> set job_table"
  obtain job calls where jc: "entry = (job, calls)" by (cases entry)
  with entry have mem: "(job, calls) \<in> set job_table" by simp
  show "case entry of (job, calls) \<Rightarrow> \<forall>x.
      timer (job x) w =
        (case script (calls x) w of
           (Inl e, w') \<Rightarrow> (Inl e, w')
         | (Inr u, w') \<Rightarrow> (Inr (clock w' - clock w), w'))"
    unfolding jc
    using timed_job_script
      [where job = job and calls = calls and Q = "\<lambda>_. True", OF conforms_job_table [OF mem]]
    by simp
next
  fix entry :: "('t list, 't) prog \<times> (int \<Rightarrow> call list)"
  assume entry: "entry \<in> set experiment_table"
  obtain cell calls where ec: "entry = (cell, calls)" by (cases entry)
  with entry have mem: "(cell, calls) \<in> set experiment_table" by simp
  note one = one_action_per_job [OF mem]
  have data: "\<forall>x. hd (calls x) = Parallelize (map int [0..<nat x])"
    using first_call_parallelizes [OF mem] by blast
  have ten: "length (filter runs_job (ten_sizes calls)) = 10"
    by (rule ten_actions) (simp add: one)
  have pre: "prefix (issued w (snd (cell w))) (ten_sizes calls)"
    by (rule conforms_issued_prefix [OF conforms_table [OF mem]])
  have le: "length (filter runs_job (issued w (snd (cell w)))) \<le> 10"
    using filter_prefix_length [OF pre, of runs_job] ten by simp
  have finished: "length ts = 10 \<and> issued w (snd (cell w)) = ten_sizes calls \<and>
      length (filter runs_job (issued w (snd (cell w)))) = 10 \<and>
      ts = elapsed_times (map calls [0, 1, 2, 3, 4, 5, 6, 7, 8, 9]) w"
    if r: "fst (cell w) = Inr ts" for ts
    using conforms_issued_Inr [OF conforms_table [OF mem] r] ten elapsed_table [OF mem r]
    by simp
  from data one pre le finished show "case entry of (cell, calls) \<Rightarrow>
      (\<forall>x. hd (calls x) = Parallelize (map int [0..<nat x])) \<and>
      (\<forall>x. length (filter runs_job (calls x)) = 1 \<and> runs_job (last (calls x))) \<and>
      prefix (issued w (snd (cell w))) (ten_sizes calls) \<and>
      length (filter runs_job (issued w (snd (cell w)))) \<le> 10 \<and>
      (\<forall>ts. fst (cell w) = Inr ts \<longrightarrow>
         length ts = 10 \<and> issued w (snd (cell w)) = ten_sizes calls \<and>
         length (filter runs_job (issued w (snd (cell w)))) = 10 \<and>
         ts = elapsed_times (map calls [0, 1, 2, 3, 4, 5, 6, 7, 8, 9]) w)"
    unfolding ec by blast
next
  show "prefix (issued w (snd (notebook w)))
     ([DefaultParallelism, TimeSleep 1] @
      ten_sizes simple_rdd_calls @ ten_sizes spark_dataframe_calls @
      ten_sizes offending_example_calls @ ten_sizes repartition_fixes_calls @
      [CancelAllJobs])"
    using conforms_issued_prefix [OF conforms_notebook, of w]
    by (simp add: notebook_calls_def before_cleanup_calls_def)
qed

theorem one_blocking_call_per_job_witness:
  "fst (simple_rdd calm_world) = Inr [3, 3, 3, 3, 3, 3, 3, 3, 3, 3] \<and>
   issued calm_world (snd (simple_rdd calm_world)) = ten_sizes simple_rdd_calls \<and>
   length (filter runs_job (issued calm_world (snd (simple_rdd calm_world)))) = 10 \<and>
   length (filter runs_job (simple_rdd_calls 3)) = 1 \<and>
   runs_job (last (simple_rdd_calls 3)) \<and>
   fst (timer (simple_rdd_job 3) calm_world) = Inr 3"
proof -
  note inst = one_blocking_call_per_job [of calm_world]
  from experiment_calm [OF simple_rdd_in_table] obtain ts where
    ts: "fst (simple_rdd calm_world) = Inr ts"
    by blast
  from inst
  have "\<forall>(cell, calls) \<in> set experiment_table.
      (\<forall>x. hd (calls x) = Parallelize (map int [0..<nat x])) \<and>
      (\<forall>x. length (filter runs_job (calls x)) = 1 \<and> runs_job (last (calls x))) \<and>
      prefix (issued calm_world (snd (cell calm_world))) (ten_sizes calls) \<and>
      length (filter runs_job (issued calm_world (snd (cell calm_world)))) \<le> 10 \<and>
      (\<forall>ts. fst (cell calm_world) = Inr ts \<longrightarrow>
         length ts = 10 \<and> issued calm_world (snd (cell calm_world)) = ten_sizes calls \<and>
         length (filter runs_job (issued calm_world (snd (cell calm_world)))) = 10 \<and>
         ts = elapsed_times (map calls [0, 1, 2, 3, 4, 5, 6, 7, 8, 9]) calm_world)"
    by blast
  from bspec [OF this simple_rdd_in_table]
  have jobs: "\<forall>x. length (filter runs_job (simple_rdd_calls x)) = 1 \<and>
        runs_job (last (simple_rdd_calls x))"
    and returned: "\<forall>ts. fst (simple_rdd calm_world) = Inr ts \<longrightarrow>
         length ts = 10 \<and>
         issued calm_world (snd (simple_rdd calm_world)) = ten_sizes simple_rdd_calls \<and>
         length (filter runs_job (issued calm_world (snd (simple_rdd calm_world)))) = 10 \<and>
         ts = elapsed_times (map simple_rdd_calls [0, 1, 2, 3, 4, 5, 6, 7, 8, 9]) calm_world"
    by blast+
  from returned ts have
    "ts = elapsed_times (map simple_rdd_calls [0, 1, 2, 3, 4, 5, 6, 7, 8, 9]) calm_world"
    by blast
  then have "ts = [3, 3, 3, 3, 3, 3, 3, 3, 3, 3]"
    by (simp only: elapsed_simple_rdd_calm)
  with ts have "fst (simple_rdd calm_world) = Inr [3, 3, 3, 3, 3, 3, 3, 3, 3, 3]"
    by simp
  moreover from returned ts have
    "issued calm_world (snd (simple_rdd calm_world)) = ten_sizes simple_rdd_calls"
    "length (filter runs_job (issued calm_world (snd (simple_rdd calm_world)))) = 10"
    by blast+
  moreover from jobs have "length (filter runs_job (simple_rdd_calls 3)) = 1"
    "runs_job (last (simple_rdd_calls 3))"
    by blast+
  moreover from inst
  have "\<forall>(job, calls) \<in> set job_table. \<forall>x.
      timer (job x) calm_world =
        (case script (calls x) calm_world of
           (Inl e, w') \<Rightarrow> (Inl e, w')
         | (Inr u, w') \<Rightarrow> (Inr (clock w' - clock calm_world), w'))"
    by blast
  from bspec [OF this simple_rdd_job_in_table]
  have "timer (simple_rdd_job 3) calm_world =
        (case script (simple_rdd_calls 3) calm_world of
           (Inl e, w') \<Rightarrow> (Inl e, w')
         | (Inr u, w') \<Rightarrow> (Inr (clock w' - clock calm_world), w'))"
    by blast
  then have "fst (timer (simple_rdd_job 3) calm_world) = Inr 3"
    by (simp add: simple_rdd_calls_def extern_def calm_world_def calm_engine_def)
  ultimately show ?thesis by (intro conjI)
qed

text \<open>
  C9. Every experiment cell maps its timed job over \<^verbatim>\<open>range(10)\<close>, the sizes 0 to 9 in
  order, and the job for size \<open>x\<close> starts by parallelizing \<^verbatim>\<open>range(x)\<close>, the integers
  from 0 to \<open>x - 1\<close>. In every run a cell issues a prefix of the calls of the ten jobs; a
  cell that returns has issued them all and returns a list of exactly ten elapsed times,
  one per job in order, each the clock reading after the job's last call minus the
  reading before its first; and a cell returns whenever none of those calls raises. The
  calls of the first job, for size 0, work on the empty sequence: \<open>take(0)\<close> of an RDD
  over \<open>[]\<close> in the RDD experiment, a parquet write of a frame over \<open>[]\<close> in the
  others.
\<close>

theorem ten_measurements_first_on_empty:
  fixes w :: "'t::minus world"
  shows
  "py_range 10 = [0, 1, 2, 3, 4, 5, 6, 7, 8, 9] \<and>
   map py_range [0, 1, 2, 3, 4, 5, 6, 7, 8, 9] =
     [[], [0], [0, 1], [0, 1, 2], [0, 1, 2, 3], [0, 1, 2, 3, 4], [0, 1, 2, 3, 4, 5],
      [0, 1, 2, 3, 4, 5, 6], [0, 1, 2, 3, 4, 5, 6, 7], [0, 1, 2, 3, 4, 5, 6, 7, 8]] \<and>
   (simple_rdd :: ('t list, 't) prog) =
      py_map (\<lambda>x. timer (simple_rdd_job x)) [0, 1, 2, 3, 4, 5, 6, 7, 8, 9] \<and>
   (spark_dataframe :: ('t list, 't) prog) =
      py_map (\<lambda>x. timer (spark_dataframe_job x)) [0, 1, 2, 3, 4, 5, 6, 7, 8, 9] \<and>
   (offending_example :: ('t list, 't) prog) =
      py_map (\<lambda>x. timer (offending_example_job x)) [0, 1, 2, 3, 4, 5, 6, 7, 8, 9] \<and>
   (repartition_fixes :: ('t list, 't) prog) =
      py_map (\<lambda>x. timer (repartition_fixes_job x)) [0, 1, 2, 3, 4, 5, 6, 7, 8, 9] \<and>
   (\<forall>(cell, calls) \<in> set experiment_table.
      (\<forall>x. hd (calls x) = Parallelize (map int [0..<nat x])) \<and>
      prefix (issued w (snd (cell w))) (concat (map calls [0, 1, 2, 3, 4, 5, 6, 7, 8, 9])) \<and>
      (\<forall>ts. fst (cell w) = Inr ts \<longrightarrow>
         length ts = 10 \<and>
         ts = elapsed_times (map calls [0, 1, 2, 3, 4, 5, 6, 7, 8, 9]) w \<and>
         issued w (snd (cell w)) = concat (map calls [0, 1, 2, 3, 4, 5, 6, 7, 8, 9])) \<and>
      (fst (script (concat (map calls [0, 1, 2, 3, 4, 5, 6, 7, 8, 9])) w) = Inr () \<longrightarrow>
         (\<exists>ts. fst (cell w) = Inr ts \<and> length ts = 10))) \<and>
   simple_rdd_calls 0 =
     [Parallelize [], RddMap (Parallelized []) SlowFunc,
      RddTake (Mapped (Parallelized []) SlowFunc) 0] \<and>
   spark_dataframe_calls 0 =
     [Parallelize [], CreateDataFrame (Parallelized []) LongType,
      Coalesce (Framed (Parallelized []) LongType) 1,
      Write (Coalesced (Framed (Parallelized []) LongType) 1),
      Mode (Writer (Coalesced (Framed (Parallelized []) LongType) 1) None) ''overwrite'',
      Parquet (Writer (Coalesced (Framed (Parallelized []) LongType) 1) (Some ''overwrite''))
        ''~/tmp.parquet''] \<and>
   offending_example_calls 0 =
     [Parallelize [], RddMap (Parallelized []) SlowFunc,
      CreateDataFrame (Mapped (Parallelized []) SlowFunc) LongType,
      Coalesce (Framed (Mapped (Parallelized []) SlowFunc) LongType) 1,
      Write (Coalesced (Framed (Mapped (Parallelized []) SlowFunc) LongType) 1),
      Mode (Writer (Coalesced (Framed (Mapped (Parallelized []) SlowFunc) LongType) 1) None)
        ''overwrite'',
      Parquet (Writer (Coalesced (Framed (Mapped (Parallelized []) SlowFunc) LongType) 1)
                 (Some ''overwrite'')) ''~/tmp.parquet''] \<and>
   repartition_fixes_calls 0 =
     [Parallelize [], RddMap (Parallelized []) SlowFunc,
      CreateDataFrame (Mapped (Parallelized []) SlowFunc) LongType,
      Repartition (Framed (Mapped (Parallelized []) SlowFunc) LongType) 1,
      Write (Repartitioned (Framed (Mapped (Parallelized []) SlowFunc) LongType) 1),
      Mode (Writer (Repartitioned (Framed (Mapped (Parallelized []) SlowFunc) LongType) 1) None)
        ''overwrite'',
      Parquet (Writer (Repartitioned (Framed (Mapped (Parallelized []) SlowFunc) LongType) 1)
                 (Some ''overwrite'')) ''~/tmp.parquet'']"
proof -
  let ?sizes = "[0, 1, 2, 3, 4, 5, 6, 7, 8, 9] :: int list"
  have cells: "(\<forall>x. hd (calls x) = Parallelize (map int [0..<nat x])) \<and>
      prefix (issued w (snd (cell w))) (concat (map calls ?sizes)) \<and>
      (\<forall>ts. fst (cell w) = Inr ts \<longrightarrow>
         length ts = 10 \<and> ts = elapsed_times (map calls ?sizes) w \<and>
         issued w (snd (cell w)) = concat (map calls ?sizes)) \<and>
      (fst (script (concat (map calls ?sizes)) w) = Inr () \<longrightarrow>
         (\<exists>ts. fst (cell w) = Inr ts \<and> length ts = 10))"
    if mem: "(cell, calls) \<in> set experiment_table"
    for cell :: "('t list, 't) prog" and calls
  proof -
    have ten: "ten_sizes calls = concat (map calls ?sizes)"
      by (simp only: ten_sizes_def py_range_10)
    note c = conforms_table [OF mem]
    have "\<forall>x. hd (calls x) = Parallelize (map int [0..<nat x])"
      using first_call_parallelizes [OF mem] by blast
    moreover have "prefix (issued w (snd (cell w))) (ten_sizes calls)"
      by (rule conforms_issued_prefix [OF c])
    moreover have "length ts = 10 \<and> ts = elapsed_times (map calls ?sizes) w \<and>
        issued w (snd (cell w)) = ten_sizes calls"
      if r: "fst (cell w) = Inr ts" for ts
      using conforms_issued_Inr [OF c r] elapsed_table [OF mem r] by simp
    moreover have "\<exists>ts. fst (cell w) = Inr ts \<and> length ts = 10"
      if "fst (script (ten_sizes calls) w) = Inr ()"
      by (rule conforms_returns [OF c that])
    ultimately show ?thesis unfolding ten by blast
  qed
  have table: "\<forall>(cell, calls) \<in> set (experiment_table :: (('t list, 't) prog \<times> _) list).
      (\<forall>x. hd (calls x) = Parallelize (map int [0..<nat x])) \<and>
      prefix (issued w (snd (cell w))) (concat (map calls ?sizes)) \<and>
      (\<forall>ts. fst (cell w) = Inr ts \<longrightarrow>
         length ts = 10 \<and> ts = elapsed_times (map calls ?sizes) w \<and>
         issued w (snd (cell w)) = concat (map calls ?sizes)) \<and>
      (fst (script (concat (map calls ?sizes)) w) = Inr () \<longrightarrow>
         (\<exists>ts. fst (cell w) = Inr ts \<and> length ts = 10))"
    using cells by blast
  have first: "simple_rdd_calls 0 =
     [Parallelize [], RddMap (Parallelized []) SlowFunc,
      RddTake (Mapped (Parallelized []) SlowFunc) 0]"
    by (simp add: simple_rdd_calls_def py_range_0)
  have second: "spark_dataframe_calls 0 =
     [Parallelize [], CreateDataFrame (Parallelized []) LongType,
      Coalesce (Framed (Parallelized []) LongType) 1,
      Write (Coalesced (Framed (Parallelized []) LongType) 1),
      Mode (Writer (Coalesced (Framed (Parallelized []) LongType) 1) None) ''overwrite'',
      Parquet (Writer (Coalesced (Framed (Parallelized []) LongType) 1) (Some ''overwrite''))
        ''~/tmp.parquet'']"
    by (simp add: spark_dataframe_calls_def py_range_0 Let_def)
  have third: "offending_example_calls 0 =
     [Parallelize [], RddMap (Parallelized []) SlowFunc,
      CreateDataFrame (Mapped (Parallelized []) SlowFunc) LongType,
      Coalesce (Framed (Mapped (Parallelized []) SlowFunc) LongType) 1,
      Write (Coalesced (Framed (Mapped (Parallelized []) SlowFunc) LongType) 1),
      Mode (Writer (Coalesced (Framed (Mapped (Parallelized []) SlowFunc) LongType) 1) None)
        ''overwrite'',
      Parquet (Writer (Coalesced (Framed (Mapped (Parallelized []) SlowFunc) LongType) 1)
                 (Some ''overwrite'')) ''~/tmp.parquet'']"
    by (simp add: offending_example_calls_def py_range_0 Let_def)
  have fourth: "repartition_fixes_calls 0 =
     [Parallelize [], RddMap (Parallelized []) SlowFunc,
      CreateDataFrame (Mapped (Parallelized []) SlowFunc) LongType,
      Repartition (Framed (Mapped (Parallelized []) SlowFunc) LongType) 1,
      Write (Repartitioned (Framed (Mapped (Parallelized []) SlowFunc) LongType) 1),
      Mode (Writer (Repartitioned (Framed (Mapped (Parallelized []) SlowFunc) LongType) 1) None)
        ''overwrite'',
      Parquet (Writer (Repartitioned (Framed (Mapped (Parallelized []) SlowFunc) LongType) 1)
                 (Some ''overwrite'')) ''~/tmp.parquet'']"
    by (simp add: repartition_fixes_calls_def py_range_0 Let_def)
  have c1: "(simple_rdd :: ('t list, 't) prog) = py_map (\<lambda>x. timer (simple_rdd_job x)) ?sizes"
    by (simp only: simple_rdd_def py_range_10)
  have c2: "(spark_dataframe :: ('t list, 't) prog) =
      py_map (\<lambda>x. timer (spark_dataframe_job x)) ?sizes"
    by (simp only: spark_dataframe_def py_range_10)
  have c3: "(offending_example :: ('t list, 't) prog) =
      py_map (\<lambda>x. timer (offending_example_job x)) ?sizes"
    by (simp only: offending_example_def py_range_10)
  have c4: "(repartition_fixes :: ('t list, 't) prog) =
      py_map (\<lambda>x. timer (repartition_fixes_job x)) ?sizes"
    by (simp only: repartition_fixes_def py_range_10)
  from py_range_10 py_range_table c1 c2 c3 c4 table first second third fourth show ?thesis
    by (intro conjI)
qed

theorem ten_measurements_first_on_empty_witness:
  "fst (script (concat (map spark_dataframe_calls [0, 1, 2, 3, 4, 5, 6, 7, 8, 9])) calm_world) =
     Inr () \<and>
   fst (spark_dataframe calm_world) = Inr [6, 6, 6, 6, 6, 6, 6, 6, 6, 6] \<and>
   issued calm_world (snd (spark_dataframe calm_world)) =
     concat (map spark_dataframe_calls [0, 1, 2, 3, 4, 5, 6, 7, 8, 9]) \<and>
   take 2 (issued calm_world (snd (spark_dataframe calm_world))) =
     [Parallelize [], CreateDataFrame (Parallelized []) LongType] \<and>
   hd (spark_dataframe_calls 3) = Parallelize [0, 1, 2]"
proof -
  let ?sizes = "[0, 1, 2, 3, 4, 5, 6, 7, 8, 9] :: int list"
  have ok: "fst (script (concat (map spark_dataframe_calls ?sizes)) calm_world) = Inr ()"
    by (rule script_calm [OF engine_calm_world])
  from ten_measurements_first_on_empty [of calm_world]
  have "\<forall>(cell, calls) \<in> set experiment_table.
      (\<forall>x. hd (calls x) = Parallelize (map int [0..<nat x])) \<and>
      prefix (issued calm_world (snd (cell calm_world))) (concat (map calls ?sizes)) \<and>
      (\<forall>ts. fst (cell calm_world) = Inr ts \<longrightarrow>
         length ts = 10 \<and> ts = elapsed_times (map calls ?sizes) calm_world \<and>
         issued calm_world (snd (cell calm_world)) = concat (map calls ?sizes)) \<and>
      (fst (script (concat (map calls ?sizes)) calm_world) = Inr () \<longrightarrow>
         (\<exists>ts. fst (cell calm_world) = Inr ts \<and> length ts = 10))"
    by blast
  from bspec [OF this spark_dataframe_in_table]
  have data: "\<forall>x. hd (spark_dataframe_calls x) = Parallelize (map int [0..<nat x])"
    and returned: "\<forall>ts. fst (spark_dataframe calm_world) = Inr ts \<longrightarrow>
         length ts = 10 \<and>
         ts = elapsed_times (map spark_dataframe_calls ?sizes) calm_world \<and>
         issued calm_world (snd (spark_dataframe calm_world)) =
           concat (map spark_dataframe_calls ?sizes)"
    and total: "fst (script (concat (map spark_dataframe_calls ?sizes)) calm_world) = Inr () \<longrightarrow>
         (\<exists>ts. fst (spark_dataframe calm_world) = Inr ts \<and> length ts = 10)"
    by blast+
  from total ok obtain ts where ts: "fst (spark_dataframe calm_world) = Inr ts" by blast
  with returned have el: "ts = elapsed_times (map spark_dataframe_calls ?sizes) calm_world"
    and calls: "issued calm_world (snd (spark_dataframe calm_world)) =
      concat (map spark_dataframe_calls ?sizes)"
    by blast+
  have two: "take 2 (concat (map spark_dataframe_calls ?sizes)) =
      [Parallelize [], CreateDataFrame (Parallelized []) LongType]"
    by (simp add: spark_dataframe_calls_def py_range_0 Let_def)
  from data have "hd (spark_dataframe_calls 3) = Parallelize (map int [0..<nat 3])" by blast
  then have three: "hd (spark_dataframe_calls 3) = Parallelize [0, 1, 2]"
    by (simp add: upt_rec numeral_eq_Suc)
  from el have "ts = [6, 6, 6, 6, 6, 6, 6, 6, 6, 6]"
    by (simp only: elapsed_spark_dataframe_calm)
  with ts have six: "fst (spark_dataframe calm_world) = Inr [6, 6, 6, 6, 6, 6, 6, 6, 6, 6]"
    by simp
  from two calls have "take 2 (issued calm_world (snd (spark_dataframe calm_world))) =
      [Parallelize [], CreateDataFrame (Parallelized []) LongType]"
    by simp
  with ok six calls three show ?thesis by (intro conjI)
qed

subsection \<open>What varies between the experiments\<close>

lemma andthen_ret: "andthen (ret x) f = f x"
  by (rule ext) (simp add: andthen_def ret_def)

lemma simple_rdd_job_variant: "simple_rdd_job = spec_job PlainTake"
  by (rule ext) (simp add: simple_rdd_job_def spec_delay_def)

lemma spark_dataframe_job_variant:
  "spark_dataframe_job = spec_job (FrameWrite False ByCoalesce)"
  by (rule ext) (simp add: spark_dataframe_job_def spec_delay_def andthen_ret)

lemma offending_example_job_variant:
  "offending_example_job = spec_job (FrameWrite True ByCoalesce)"
  by (rule ext) (simp add: offending_example_job_def spec_delay_def)

lemma repartition_fixes_job_variant:
  "repartition_fixes_job = spec_job (FrameWrite True ByRepartition)"
  by (rule ext) (simp add: repartition_fixes_job_def spec_delay_def)

text \<open>
  C4, as stated, fails: the first experiment has no write path. Against an engine that
  never raises it runs its ten jobs without a single \<open>coalesce\<close>, \<open>repartition\<close> or
  parquet write (each job ends in \<open>take\<close>), while the second experiment writes parquet
  ten times. So the experiments differ in more than the three aspects named.
\<close>

theorem simple_rdd_has_no_write_path:
  "filter (\<lambda>c. reduces c \<or> persists c) (issued calm_world (snd (simple_rdd calm_world))) = [] \<and>
   length (filter runs_job (issued calm_world (snd (simple_rdd calm_world)))) = 10 \<and>
   length (filter persists (issued calm_world (snd (spark_dataframe calm_world)))) = 10"
proof -
  have a: "issued calm_world (snd (simple_rdd calm_world)) = ten_sizes simple_rdd_calls"
    using experiment_calm [OF simple_rdd_in_table] by simp
  have b: "issued calm_world (snd (spark_dataframe calm_world)) =
      ten_sizes spark_dataframe_calls"
    using experiment_calm [OF spark_dataframe_in_table] by simp
  show ?thesis unfolding a b
    by (simp add: ten_sizes_def py_range_10 simple_rdd_calls_def spark_dataframe_calls_def
          Let_def)
qed

text \<open>
  C4, amended. The notebook has exactly four experiments, and each is the one job with
  switches, mapped with \<open>timer\<close> over \<^verbatim>\<open>range(10)\<close>: the first takes the plain
  parallelized sequence with \<open>slow_func\<close> mapped over it and materialises it with
  \<open>take(x)\<close>, with no partition reduction and no write; the other three wrap the data
  with \<open>create_frame\<close> and write parquet to \<open>path\<close> in overwrite mode, and differ only
  in whether \<open>slow_func\<close> is mapped over the data (no, yes, yes) and in whether
  \<open>coalesce(1)\<close> or \<open>repartition(1)\<close> comes before the write (coalesce, coalesce,
  repartition).
\<close>

theorem four_experiments_by_variant:
  "experiments =
     [spec_experiment PlainTake,
      spec_experiment (FrameWrite False ByCoalesce),
      spec_experiment (FrameWrite True ByCoalesce),
      spec_experiment (FrameWrite True ByRepartition)]"
  by (simp add: experiments_def spec_experiment_def simple_rdd_def spark_dataframe_def
        offending_example_def repartition_fixes_def simple_rdd_job_variant
        spark_dataframe_job_variant offending_example_job_variant
        repartition_fixes_job_variant)

end
